theory Spec2Isabelle
  imports Main "HOL-Library.Word" "HOL-Library.Sublist" "HOL-Library.Log_Nat"
begin

unbundle bit_operations_syntax

section \<open>JavaScript values used by \<open>podman.ipv6\<close>\<close>

text \<open>
  The module \<open>podman.ipv6\<close> exports one function, \<open>deriveUlaFromIpv4(ipv4, ula_prefix)\<close>.
  It is built from string and array primitives of the language
  (\<open>split\<close>, \<open>map(Number)\<close>, indexing, \<open><<\<close>, \<open>|\<close>, \<open>toString(16)\<close>, \<open>padStart\<close>,
  \<open>push\<close>, \<open>slice\<close>, \<open>join\<close>, template literals). Each primitive is modelled below as
  ECMAScript defines it, and the function itself is then transcribed line by line.

  A JavaScript string is a sequence of 16-bit code units.
\<close>

type_synonym jschar = "16 word"
type_synonym jsstring = "jschar list"

definition ch :: "char \<Rightarrow> jschar" where
  "ch c = word_of_nat (of_char c)"

definition js :: "string \<Rightarrow> jsstring" where
  "js s = map ch s"

text \<open>
  A Number is an IEEE-754 binary64 value: not-a-number, an infinity with its sign, or a
  finite value \<open>Finite neg m s\<close> that stands for \<open>(if neg then -1 else 1) * m * 2 ^ s\<close>.
\<close>

datatype jsnum = NaN | Infinity bool | Finite bool nat int

text \<open>The only exception the function could raise: a method call on \<open>undefined\<close>.\<close>

datatype error = TypeError

text \<open>The object literal returned by the function.\<close>

record derived =
  ipv6subnet :: jsstring
  ipv6gateway :: jsstring

section \<open>Array primitives\<close>

text \<open>\<open>xs[i]\<close>: reading past the end of an array gives \<open>undefined\<close> (here \<open>None\<close>).\<close>

definition elemAt :: "'a list \<Rightarrow> nat \<Rightarrow> 'a option" where
  "elemAt xs i = (if i < length xs then Some (xs ! i) else None)"

text \<open>\<open>xs.slice(b, e)\<close> for non-negative \<open>b\<close> and \<open>e\<close>.\<close>

definition slice :: "nat \<Rightarrow> nat \<Rightarrow> 'a list \<Rightarrow> 'a list" where
  "slice b e xs = drop b (take e xs)"

text \<open>\<open>xs.join(sep)\<close> on an array of strings.\<close>

fun join_str :: "'a list \<Rightarrow> 'a list list \<Rightarrow> 'a list" where
  "join_str sep [] = []"
| "join_str sep [x] = x"
| "join_str sep (x # y # ys) = x @ sep @ join_str sep (y # ys)"

section \<open>String primitives\<close>

text \<open>
  \<open>s.split(sep)\<close> with a string separator and no limit. ECMAScript scans \<open>s\<close> from the
  left with two positions: \<open>p\<close>, the start of the piece being collected, and \<open>q\<close>, the
  position tried next. When the separator matches at \<open>q\<close> the piece \<open>s[p..q)\<close> is
  emitted and both positions jump behind the match; otherwise \<open>q\<close> advances by one. The
  remaining piece is emitted at the end. Here \<open>cur\<close> is the piece \<open>s[p..q)\<close> collected so
  far and the third argument is the text from \<open>q\<close> on.
\<close>

function split_loop :: "'a list \<Rightarrow> 'a list \<Rightarrow> 'a list \<Rightarrow> 'a list list" where
  "split_loop sep cur [] = [cur]"
| "split_loop sep cur (c # cs) =
     (if sep \<noteq> [] \<and> prefix sep (c # cs)
      then cur # split_loop sep [] (drop (length sep) (c # cs))
      else split_loop sep (cur @ [c]) cs)"
  by pat_completeness auto
termination
  by (relation "measure (\<lambda>(sep, cur, s). length s)") auto

text \<open>An empty separator splits the string into its code units.\<close>

definition split_str :: "'a list \<Rightarrow> 'a list \<Rightarrow> 'a list list" where
  "split_str sep s = (if sep = [] then map (\<lambda>c. [c]) s else split_loop sep [] s)"

text \<open>\<open>s.padStart(n, fill)\<close>.\<close>

definition padStart :: "nat \<Rightarrow> 'a list \<Rightarrow> 'a list \<Rightarrow> 'a list" where
  "padStart n fill s =
     (if n \<le> length s \<or> fill = [] then s
      else take (n - length s) (concat (replicate (n - length s) fill)) @ s)"

section \<open>\<open>Number(string)\<close>\<close>

text \<open>
  \<open>Number\<close> applied to a string is the abstract operation StringToNumber: surrounding
  white space and line terminators are stripped; the empty string is \<open>+0\<close>; the rest
  must be a decimal literal (optional sign, \<open>Infinity\<close> or digits with an optional
  fraction and exponent) or an unsigned binary, octal or hexadecimal integer literal;
  anything else is \<open>NaN\<close>. The mathematical value of the literal is rounded to the
  nearest binary64 value, ties to even. (For a decimal literal of more than 20
  significant digits ECMAScript also allows rounding from the first 20 digits; engines
  round the exact value, as is done here. No octet used below has that many digits.)
  The two zeros \<open>+0\<close> and \<open>-0\<close> are \<open>Finite False 0 s\<close> and \<open>Finite True 0 s\<close>.
\<close>

definition isStrWhiteSpaceChar :: "jschar \<Rightarrow> bool" where
  "isStrWhiteSpaceChar c =
     (c = 0x0009 \<or> c = 0x000A \<or> c = 0x000B \<or> c = 0x000C \<or> c = 0x000D \<or> c = 0x0020
      \<or> c = 0x00A0 \<or> c = 0x1680 \<or> (0x2000 \<le> c \<and> c \<le> 0x200A) \<or> c = 0x2028
      \<or> c = 0x2029 \<or> c = 0x202F \<or> c = 0x205F \<or> c = 0x3000 \<or> c = 0xFEFF)"

definition trimString :: "jsstring \<Rightarrow> jsstring" where
  "trimString s = rev (dropWhile isStrWhiteSpaceChar (rev (dropWhile isStrWhiteSpaceChar s)))"

text \<open>The value of a digit in a radix up to 16, if the code unit is such a digit.\<close>

definition digitValue :: "jschar \<Rightarrow> nat option" where
  "digitValue c =
     (if 0x30 \<le> c \<and> c \<le> 0x39 then Some (unat c - 48)
      else if 0x61 \<le> c \<and> c \<le> 0x66 then Some (unat c - 87)
      else if 0x41 \<le> c \<and> c \<le> 0x46 then Some (unat c - 55)
      else None)"

definition isDigitIn :: "nat \<Rightarrow> jschar \<Rightarrow> bool" where
  "isDigitIn radix c = (case digitValue c of None \<Rightarrow> False | Some d \<Rightarrow> d < radix)"

text \<open>The mathematical value of a digit sequence, most significant digit first.\<close>

definition digitsValue :: "nat \<Rightarrow> jsstring \<Rightarrow> nat" where
  "digitsValue radix ds =
     foldl (\<lambda>acc c. acc * radix + (case digitValue c of None \<Rightarrow> 0 | Some d \<Rightarrow> d)) 0 ds"

definition roundHalfEven :: "nat \<Rightarrow> nat \<Rightarrow> nat" where
  "roundHalfEven num den =
     (let q = num div den; r = num mod den
      in if 2 * r < den then q
         else if den < 2 * r then q + 1
         else if even q then q else q + 1)"

text \<open>
  The Number value for the rational \<open>n / d\<close> (with \<open>d > 0\<close>) and the given sign.
  \<open>e0\<close> is the binary exponent \<open>\<lfloor>log\<^sub>2 (n / d)\<rfloor>\<close>, \<open>e\<close> the exponent after clamping to the
  subnormal range, \<open>2 ^ s\<close> the distance between neighbouring binary64 values there,
  and \<open>m\<close> the significand after rounding. A result of \<open>2 ^ 1024\<close> or more is infinite.
\<close>

definition numberValue :: "bool \<Rightarrow> nat \<Rightarrow> nat \<Rightarrow> jsnum" where
  "numberValue neg n d =
     (if n = 0 then Finite neg 0 0
      else
        let k = int (floorlog 2 n) - int (floorlog 2 d);
            e0 = (if (if 0 \<le> k then d * 2 ^ nat k \<le> n else d \<le> n * 2 ^ nat (- k))
                  then k else k - 1);
            e = max e0 (- 1022);
            s = e - 52;
            m = (if 0 \<le> s then roundHalfEven n (d * 2 ^ nat s)
                 else roundHalfEven (n * 2 ^ nat (- s)) d)
        in if 0 \<le> s \<and> 2 ^ 1024 \<le> m * 2 ^ nat s then Infinity neg else Finite neg m s)"

text \<open>The Number value for \<open>D * 10 ^ k\<close>.\<close>

definition decimalValue :: "bool \<Rightarrow> nat \<Rightarrow> int \<Rightarrow> jsnum" where
  "decimalValue neg D k =
     (if 0 \<le> k then numberValue neg (D * 10 ^ nat k) 1
      else numberValue neg D (10 ^ nat (- k)))"

text \<open>\<open>0x\<close>, \<open>0o\<close> and \<open>0b\<close> literals: the radix and the digits after the prefix.\<close>

definition nonDecimalLiteral :: "jsstring \<Rightarrow> (nat \<times> jsstring) option" where
  "nonDecimalLiteral t =
     (case t of
        c0 # c1 # ds \<Rightarrow>
          if c0 \<noteq> ch CHR ''0'' then None
          else if c1 = ch CHR ''x'' \<or> c1 = ch CHR ''X'' then Some (16, ds)
          else if c1 = ch CHR ''o'' \<or> c1 = ch CHR ''O'' then Some (8, ds)
          else if c1 = ch CHR ''b'' \<or> c1 = ch CHR ''B'' then Some (2, ds)
          else None
      | _ \<Rightarrow> None)"

text \<open>A non-empty run of decimal digits and nothing else.\<close>

definition decimalDigits :: "jsstring \<Rightarrow> nat option" where
  "decimalDigits ds =
     (if ds \<noteq> [] \<and> list_all (isDigitIn 10) ds then Some (digitsValue 10 ds) else None)"

text \<open>SignedInteger of an exponent part.\<close>

definition signedInteger :: "jsstring \<Rightarrow> int option" where
  "signedInteger t =
     (case t of
        [] \<Rightarrow> None
      | c # cs \<Rightarrow>
          if c = ch CHR ''+'' then map_option int (decimalDigits cs)
          else if c = ch CHR ''-'' then map_option (\<lambda>n. - int n) (decimalDigits cs)
          else map_option int (decimalDigits t))"

text \<open>The optional exponent part that must end the literal: absent means exponent 0.\<close>

definition exponentPart :: "jsstring \<Rightarrow> int option" where
  "exponentPart t =
     (case t of
        [] \<Rightarrow> Some 0
      | c # cs \<Rightarrow> if c = ch CHR ''e'' \<or> c = ch CHR ''E'' then signedInteger cs else None)"

definition strUnsignedDecimalLiteral :: "bool \<Rightarrow> jsstring \<Rightarrow> jsnum" where
  "strUnsignedDecimalLiteral neg t =
     (if t = js ''Infinity'' then Infinity neg
      else
        let ip = takeWhile (isDigitIn 10) t;
            r1 = dropWhile (isDigitIn 10) t;
            hasDot = (r1 \<noteq> [] \<and> hd r1 = ch CHR ''.'');
            fp = (if hasDot then takeWhile (isDigitIn 10) (tl r1) else []);
            r2 = (if hasDot then dropWhile (isDigitIn 10) (tl r1) else r1)
        in if ip = [] \<and> fp = [] then NaN
           else case exponentPart r2 of
                  None \<Rightarrow> NaN
                | Some ex \<Rightarrow> decimalValue neg (digitsValue 10 (ip @ fp)) (ex - int (length fp)))"

definition strDecimalLiteral :: "jsstring \<Rightarrow> jsnum" where
  "strDecimalLiteral t =
     (case t of
        [] \<Rightarrow> NaN
      | c # cs \<Rightarrow>
          if c = ch CHR ''+'' then strUnsignedDecimalLiteral False cs
          else if c = ch CHR ''-'' then strUnsignedDecimalLiteral True cs
          else strUnsignedDecimalLiteral False t)"

definition Number :: "jsstring \<Rightarrow> jsnum" where
  "Number str =
     (let t = trimString str
      in if t = [] then Finite False 0 0
         else case nonDecimalLiteral t of
                Some (radix, ds) \<Rightarrow>
                  if ds \<noteq> [] \<and> list_all (isDigitIn radix) ds
                  then numberValue False (digitsValue radix ds) 1
                  else NaN
              | None \<Rightarrow> strDecimalLiteral t)"

section \<open>Integer operators\<close>

text \<open>ToNumber of an array element that may be \<open>undefined\<close>: \<open>undefined\<close> becomes \<open>NaN\<close>.\<close>

definition ToNumber :: "jsnum option \<Rightarrow> jsnum" where
  "ToNumber v = (case v of None \<Rightarrow> NaN | Some x \<Rightarrow> x)"

text \<open>
  ToInt32: \<open>NaN\<close> and the infinities become 0; a finite value is truncated towards zero
  and reduced modulo \<open>2 ^ 32\<close> into the signed 32-bit range.
\<close>

definition ToInt32 :: "jsnum \<Rightarrow> 32 word" where
  "ToInt32 x =
     (case x of
        NaN \<Rightarrow> 0
      | Infinity _ \<Rightarrow> 0
      | Finite neg m s \<Rightarrow>
          let mag = (if 0 \<le> s then m * 2 ^ nat s else m div 2 ^ nat (- s))
          in if neg then - word_of_nat mag else word_of_nat mag)"

text \<open>\<open>a << 8\<close> and \<open>a | b\<close>: both operands go through ToInt32, the result is an int32.\<close>

definition shl8 :: "jsnum option \<Rightarrow> 32 word" where
  "shl8 a = push_bit 8 (ToInt32 (ToNumber a))"

definition bitor :: "32 word \<Rightarrow> jsnum option \<Rightarrow> 32 word" where
  "bitor a b = a OR ToInt32 (ToNumber b)"

text \<open>\<open>x.toString(16)\<close> for an int32 \<open>x\<close>: a minus sign for a negative value, then the
  magnitude in lowercase hexadecimal without leading zeros.\<close>

definition hexDigit :: "nat \<Rightarrow> jschar" where
  "hexDigit d = (if d < 10 then word_of_nat (48 + d) else word_of_nat (87 + d))"

function toRadix16 :: "nat \<Rightarrow> jsstring" where
  "toRadix16 n = (if n < 16 then [hexDigit n] else toRadix16 (n div 16) @ [hexDigit (n mod 16)])"
  by pat_completeness auto
termination
  by (relation "measure id") auto

declare toRadix16.simps [simp del]

definition toString16 :: "32 word \<Rightarrow> jsstring" where
  "toString16 x =
     (if sint x < 0 then ch CHR ''-'' # toRadix16 (nat (- sint x)) else toRadix16 (nat (sint x)))"

section \<open>\<open>deriveUlaFromIpv4\<close>\<close>

text \<open>
  Step 1 of the source, `Process IPv4 address':
  \<^verbatim>\<open>
  const ipv4Address = ipv4.split('/')[0];
  const octets = ipv4Address.split('.').map(Number);
  const octet3 = octets[2];
  const octet4 = octets[3];
  const subnetIdHex = ((octet3 << 8) | octet4).toString(16).padStart(4, '0');
  \<close>
\<close>

definition subnetIdOfOctets :: "jsnum option \<Rightarrow> jsnum option \<Rightarrow> jsstring" where
  "subnetIdOfOctets octet3 octet4 =
     padStart 4 (js ''0'') (toString16 (bitor (shl8 octet3) octet4))"

definition subnetIdHex :: "jsstring \<Rightarrow> error + jsstring" where
  "subnetIdHex ipv4 =
     (case elemAt (split_str (js ''/'') ipv4) 0 of
        None \<Rightarrow> Inl TypeError
      | Some ipv4Address \<Rightarrow>
          let octets = map Number (split_str (js ''.'') ipv4Address);
              octet3 = elemAt octets 2;
              octet4 = elemAt octets 3
          in Inr (subnetIdOfOctets octet3 octet4))"

text \<open>
  Step 2, `Process ULA prefix':
  \<^verbatim>\<open>
  const ulaAddress = ula_prefix.split('/')[0];
  const ulaParts = ulaAddress.split('::');
  let ulaBase = ulaParts[0];
  let hextets = ulaBase.split(':');
  if (hextets.length === 1 && hextets[0] === "") { hextets = []; }
  while (hextets.length < 3) { hextets.push('0'); }
  const ulaNetworkBase = hextets.slice(0, 3).join(':');
  \<close>
\<close>

function padHextets :: "jsstring list \<Rightarrow> jsstring list" where
  "padHextets hextets =
     (if length hextets < 3 then padHextets (hextets @ [js ''0'']) else hextets)"
  by pat_completeness auto
termination
  by (relation "measure (\<lambda>hextets. 3 - length hextets)") auto

declare padHextets.simps [simp del]

definition ulaHextets :: "jsstring \<Rightarrow> error + jsstring list" where
  "ulaHextets ula_prefix =
     (case elemAt (split_str (js ''/'') ula_prefix) 0 of
        None \<Rightarrow> Inl TypeError
      | Some ulaAddress \<Rightarrow>
          (let ulaParts = split_str (js ''::'') ulaAddress
           in (case elemAt ulaParts 0 of
                 None \<Rightarrow> Inl TypeError
               | Some ulaBase \<Rightarrow>
                   (let hextets = split_str (js '':'') ulaBase
                    in Inr (if length hextets = 1 \<and> elemAt hextets 0 = Some [] then []
                            else hextets)))))"

definition ulaNetworkBase :: "jsstring \<Rightarrow> error + jsstring" where
  "ulaNetworkBase ula_prefix =
     (case ulaHextets ula_prefix of
        Inl e \<Rightarrow> Inl e
      | Inr hextets \<Rightarrow> Inr (join_str (js '':'') (slice 0 3 (padHextets hextets))))"

text \<open>
  Step 3, `Build subnet and gateway':
  \<^verbatim>\<open>
  const ipv6SubnetAddress = `${ulaNetworkBase}:${subnetIdHex}::`;
  return { ipv6subnet: `${ipv6SubnetAddress}/64`, ipv6gateway: `${ipv6SubnetAddress}1` };
  \<close>
  The statements of step 1 run before those of step 2, so an exception of step 1 wins.
  The body reads its two parameters and nothing else (no global, no clock, no random
  source, no I/O), which is why it is a function of the two strings here.
\<close>

definition deriveUlaFromIpv4 :: "jsstring \<Rightarrow> jsstring \<Rightarrow> error + derived" where
  "deriveUlaFromIpv4 ipv4 ula_prefix =
     (case subnetIdHex ipv4 of
        Inl e \<Rightarrow> Inl e
      | Inr subnetId \<Rightarrow>
          (case ulaNetworkBase ula_prefix of
             Inl e \<Rightarrow> Inl e
           | Inr base \<Rightarrow>
               let ipv6SubnetAddress = base @ js '':'' @ subnetId @ js ''::''
               in Inr \<lparr>ipv6subnet = ipv6SubnetAddress @ js ''/64'',
                       ipv6gateway = ipv6SubnetAddress @ js ''1''\<rparr>))"

section \<open>Vocabulary of the properties\<close>

text \<open>
  A leading hextet as the function sees it: a non-empty piece of text without \<open>:\<close> and
  without \<open>/\<close>. Every group of one to four hexadecimal digits is one.
\<close>

definition hextetText :: "jsstring \<Rightarrow> bool" where
  "hextetText h = (h \<noteq> [] \<and> ch CHR '':'' \<notin> set h \<and> ch CHR ''/'' \<notin> set h)"

text \<open>
  A valid third or fourth octet: a non-empty run of decimal digits (leading zeros
  allowed) whose value \<open>n\<close> is at most 255.
\<close>

definition decimalOctet :: "jsstring \<Rightarrow> nat \<Rightarrow> bool" where
  "decimalOctet s n = (s \<noteq> [] \<and> list_all (isDigitIn 10) s \<and> digitsValue 10 s = n \<and> n \<le> 255)"

text \<open>The Number that \<open>Number\<close> returns for such an octet (see \<open>Number_decimalOctet\<close>).\<close>

definition octetNumber :: "nat \<Rightarrow> jsnum" where
  "octetNumber n = numberValue False n 1"

text \<open>
  The first two components of the address are only required not to disturb the
  splitting: any text without \<open>.\<close> and \<open>/\<close>.
\<close>

definition octetText :: "jsstring \<Rightarrow> bool" where
  "octetText s = (ch CHR ''.'' \<notin> set s \<and> ch CHR ''/'' \<notin> set s)"

text \<open>What follows the address: nothing, or a \<open>/\<close> and anything after it.\<close>

definition cidrSuffix :: "jsstring \<Rightarrow> bool" where
  "cidrSuffix sfx = (sfx = [] \<or> hd sfx = ch CHR ''/'')"

text \<open>An IPv4 input with four components and a suffix.\<close>

definition ipv4Text :: "jsstring \<Rightarrow> jsstring \<Rightarrow> jsstring \<Rightarrow> jsstring \<Rightarrow> jsstring \<Rightarrow> jsstring" where
  "ipv4Text o1 o2 o3 o4 sfx = o1 @ js ''.'' @ o2 @ js ''.'' @ o3 @ js ''.'' @ o4 @ sfx"

text \<open>
  The decimal text of a number without leading zeros, the way an octet is usually
  written.
\<close>

function decimalText :: "nat \<Rightarrow> jsstring" where
  "decimalText n =
     (if n < 10 then [hexDigit n] else decimalText (n div 10) @ [hexDigit (n mod 10)])"
  by pat_completeness auto
termination
  by (relation "measure id") auto

declare decimalText.simps [simp del]

text \<open>
  The fourth of the groups that the colons of an output string separate. In
  \<open>"fd52:425:78eb:1400::/64"\<close> it is \<open>"1400"\<close>.
\<close>

definition fourthHextet :: "jsstring \<Rightarrow> jsstring option" where
  "fourthHextet out = elemAt (split_str (js '':'') out) 3"

section \<open>Evaluation on concrete inputs\<close>

text \<open>
  The scenarios are evaluated by rewriting with the definitions. The only fact that is
  not a definition unfolds the padding \<open>replicate n fill\<close> for a literal \<open>n\<close>.
\<close>

lemma replicate_literal:
  "replicate (numeral k) c = replicate (pred_numeral k) c @ [c]"
  by (simp add: numeral_eq_Suc replicate_append_same)

lemmas eval_simps = replicate_literal
  js_def ch_def elemAt_def slice_def split_str_def padStart_def Number_def trimString_def
  isStrWhiteSpaceChar_def nonDecimalLiteral_def strDecimalLiteral_def
  strUnsignedDecimalLiteral_def isDigitIn_def digitValue_def digitsValue_def exponentPart_def
  signedInteger_def decimalDigits_def decimalValue_def numberValue_def compute_floorlog
  roundHalfEven_def Let_def ToNumber_def ToInt32_def shl8_def bitor_def hexDigit_def
  toRadix16.simps toString16_def subnetIdOfOctets_def subnetIdHex_def padHextets.simps
  ulaHextets_def ulaNetworkBase_def deriveUlaFromIpv4_def

lemma example_full_prefix:
  "deriveUlaFromIpv4 (js ''192.168.20.0/24'') (js ''fd52:425:78eb::/48'') =
     Inr \<lparr>ipv6subnet = js ''fd52:425:78eb:1400::/64'',
           ipv6gateway = js ''fd52:425:78eb:1400::1''\<rparr>"
  by (simp add: eval_simps)

lemma example_minimal_prefix:
  "deriveUlaFromIpv4 (js ''172.16.0.1/16'') (js ''::/48'') =
     Inr \<lparr>ipv6subnet = js ''0:0:0:0001::/64'', ipv6gateway = js ''0:0:0:0001::1''\<rparr>"
  by (simp add: eval_simps)

lemma example_one_hextet:
  "deriveUlaFromIpv4 (js ''192.168.0.0/24'') (js ''fd00::/8'') =
     Inr \<lparr>ipv6subnet = js ''fd00:0:0:0000::/64'', ipv6gateway = js ''fd00:0:0:0000::1''\<rparr>"
  by (simp add: eval_simps)

lemma example_octet_256:
  "deriveUlaFromIpv4 (js ''10.0.256.0/24'') (js ''fd52:425:78eb::/48'') =
     Inr \<lparr>ipv6subnet = js ''fd52:425:78eb:10000::/64'',
           ipv6gateway = js ''fd52:425:78eb:10000::1''\<rparr>"
  by (simp add: eval_simps)

lemma example_negative_octet:
  "deriveUlaFromIpv4 (js ''10.0.-5.0/24'') (js ''fd52:425:78eb::/48'') =
     Inr \<lparr>ipv6subnet = js ''fd52:425:78eb:-500::/64'',
           ipv6gateway = js ''fd52:425:78eb:-500::1''\<rparr>"
  by (simp add: eval_simps)

section \<open>The function never raises\<close>

text \<open>
  \<open>split\<close> with a non-empty separator returns at least one piece, so every \<open>[0]\<close> of the
  source reads a string and no method is ever called on \<open>undefined\<close>.
\<close>

lemma split_loop_not_Nil: "split_loop sep cur s \<noteq> []"
  by (induction sep cur s rule: split_loop.induct) auto

lemma elemAt_0_split_str:
  "sep \<noteq> [] \<Longrightarrow> elemAt (split_str sep s) 0 = Some (hd (split_str sep s))"
  using split_loop_not_Nil [of sep "[]" s]
  by (cases "split_loop sep [] s") (simp_all add: elemAt_def split_str_def)

lemma js_not_Nil: "js (c # cs) \<noteq> []"
  by (simp add: js_def)

lemma subnetIdHex_Inr:
  "subnetIdHex ipv4 =
     Inr (let octets = map Number (split_str (js ''.'') (hd (split_str (js ''/'') ipv4)))
          in subnetIdOfOctets (elemAt octets 2) (elemAt octets 3))"
  by (simp add: subnetIdHex_def elemAt_0_split_str js_not_Nil Let_def)

lemma ulaHextets_Inr:
  "ulaHextets ula_prefix =
     Inr (let hextets = split_str (js '':'')
                          (hd (split_str (js ''::'') (hd (split_str (js ''/'') ula_prefix))))
          in if hextets = [[]] then [] else hextets)"
proof -
  have "(length hs = 1 \<and> elemAt hs 0 = Some []) = (hs = [[]])" for hs :: "jsstring list"
    by (cases hs) (auto simp: elemAt_def)
  then show ?thesis
    by (simp add: ulaHextets_def elemAt_0_split_str js_not_Nil Let_def)
qed

lemma ulaNetworkBase_total: "\<exists>base. ulaNetworkBase ula_prefix = Inr base"
  by (simp add: ulaNetworkBase_def ulaHextets_Inr)

lemma subnetIdHex_total: "\<exists>subnetId. subnetIdHex ipv4 = Inr subnetId"
  by (simp add: subnetIdHex_Inr)

lemma deriveUlaFromIpv4_shape:
  "\<exists>base subnetId.
     ulaNetworkBase ula_prefix = Inr base \<and> subnetIdHex ipv4 = Inr subnetId \<and>
     deriveUlaFromIpv4 ipv4 ula_prefix =
       Inr \<lparr>ipv6subnet = base @ js '':'' @ subnetId @ js ''::/64'',
             ipv6gateway = base @ js '':'' @ subnetId @ js ''::1''\<rparr>"
proof -
  obtain base where b: "ulaNetworkBase ula_prefix = Inr base"
    using ulaNetworkBase_total by blast
  obtain subnetId where s: "subnetIdHex ipv4 = Inr subnetId"
    using subnetIdHex_total by blast
  show ?thesis
    by (simp add: deriveUlaFromIpv4_def b s js_def)
qed

lemma deriveUlaFromIpv4_total: "\<exists>r. deriveUlaFromIpv4 ipv4 ula_prefix = Inr r"
  using deriveUlaFromIpv4_shape [of ula_prefix ipv4] by blast

section \<open>The documented scenarios\<close>

text \<open>
  Claim C1. \<open>deriveUlaFromIpv4("192.168.20.0/24", "fd52:425:78eb::/48")\<close> returns exactly
  \<open>{ ipv6subnet: "fd52:425:78eb:1400::/64", ipv6gateway: "fd52:425:78eb:1400::1" }\<close>.
\<close>

theorem scenario_full_prefix:
  "deriveUlaFromIpv4 (js ''192.168.20.0/24'') (js ''fd52:425:78eb::/48'') =
     Inr \<lparr>ipv6subnet = js ''fd52:425:78eb:1400::/64'',
           ipv6gateway = js ''fd52:425:78eb:1400::1''\<rparr>"
  by (rule example_full_prefix)

text \<open>
  Claim C2. The docstring of the function gives, as an example,
  \<open>deriveUlaFromIpv4("172.16.0.1/16", "::/48")\<close> =
  \<open>{ ipv6subnet: "0:0:0:1::/64", ipv6gateway: "0:0:0:1::1" }\<close>, the fourth hextet for
  the octet pair (0, 1) being \<open>"1"\<close>. The code returns the fourth hextet \<open>"0001"\<close>
  there, \<open>padStart(4, '0')\<close> having widened \<open>"1"\<close>, and so not what its docstring says.
\<close>

theorem scenario_minimal_prefix:
  "deriveUlaFromIpv4 (js ''172.16.0.1/16'') (js ''::/48'') =
     Inr \<lparr>ipv6subnet = js ''0:0:0:0001::/64'', ipv6gateway = js ''0:0:0:0001::1''\<rparr> \<and>
   deriveUlaFromIpv4 (js ''172.16.0.1/16'') (js ''::/48'') \<noteq>
     Inr \<lparr>ipv6subnet = js ''0:0:0:1::/64'', ipv6gateway = js ''0:0:0:1::1''\<rparr>"
  by (simp add: example_minimal_prefix) (simp add: js_def ch_def)

text \<open>
  Claim C3 says that \<open>deriveUlaFromIpv4("192.168.0.0/24", "fd00::/8")\<close> has the subnet
  identifier \<open>"0000"\<close> and the subnet \<open>"0:0:0:0000::/64"\<close>. The identifier is right, the
  subnet is not: the one hextet \<open>fd00\<close> in front of \<open>::\<close> is kept and padded with two
  \<open>"0"\<close> hextets.
\<close>

theorem scenario_one_hextet_not_all_zero:
  "ipv6subnet (projr (deriveUlaFromIpv4 (js ''192.168.0.0/24'') (js ''fd00::/8''))) \<noteq>
     js ''0:0:0:0000::/64''"
  by (simp add: example_one_hextet) (simp add: js_def ch_def)

text \<open>
  Claim C3, amended. \<open>deriveUlaFromIpv4("192.168.0.0/24", "fd00::/8")\<close> has the subnet
  identifier \<open>"0000"\<close> and returns
  \<open>{ ipv6subnet: "fd00:0:0:0000::/64", ipv6gateway: "fd00:0:0:0000::1" }\<close>.
\<close>

theorem scenario_one_hextet:
  "subnetIdHex (js ''192.168.0.0/24'') = Inr (js ''0000'') \<and>
   deriveUlaFromIpv4 (js ''192.168.0.0/24'') (js ''fd00::/8'') =
     Inr \<lparr>ipv6subnet = js ''fd00:0:0:0000::/64'', ipv6gateway = js ''fd00:0:0:0000::1''\<rparr>"
  by (simp add: example_one_hextet) (simp add: eval_simps)

section \<open>Subnet and gateway\<close>

text \<open>
  Claim C4. For every pair of input strings (so in particular for every IPv4 address of
  four decimal octets in 0..255 and every IPv6 textual prefix) the function returns an
  object whose \<open>ipv6subnet\<close> is some text \<open>addr\<close> followed by \<open>::/64\<close> and whose
  \<open>ipv6gateway\<close> is the same \<open>addr\<close> followed by \<open>::1\<close>: the gateway is the subnet with
  the suffix \<open>/64\<close> removed and the trailing \<open>::\<close> replaced by \<open>::1\<close>.
\<close>

theorem gateway_from_subnet:
  "\<exists>r addr. deriveUlaFromIpv4 ipv4 ula_prefix = Inr r \<and>
     ipv6subnet r = addr @ js ''::/64'' \<and> ipv6gateway r = addr @ js ''::1''"
proof -
  obtain base subnetId where
    "deriveUlaFromIpv4 ipv4 ula_prefix =
       Inr \<lparr>ipv6subnet = base @ js '':'' @ subnetId @ js ''::/64'',
             ipv6gateway = base @ js '':'' @ subnetId @ js ''::1''\<rparr>"
    using deriveUlaFromIpv4_shape [of ula_prefix ipv4] by blast
  then have "deriveUlaFromIpv4 ipv4 ula_prefix =
       Inr \<lparr>ipv6subnet = base @ js '':'' @ subnetId @ js ''::/64'',
             ipv6gateway = base @ js '':'' @ subnetId @ js ''::1''\<rparr> \<and>
     ipv6subnet \<lparr>ipv6subnet = base @ js '':'' @ subnetId @ js ''::/64'',
             ipv6gateway = base @ js '':'' @ subnetId @ js ''::1''\<rparr>
       = (base @ js '':'' @ subnetId) @ js ''::/64'' \<and>
     ipv6gateway \<lparr>ipv6subnet = base @ js '':'' @ subnetId @ js ''::/64'',
             ipv6gateway = base @ js '':'' @ subnetId @ js ''::1''\<rparr>
       = (base @ js '':'' @ subnetId) @ js ''::1''"
    by simp
  then show ?thesis by blast
qed

section \<open>Octets out of range\<close>

text \<open>
  Claim C9. An octet outside 0..255 is not rejected: with the third octet \<open>256\<close> the
  subnet identifier, the fourth hextet of the result, is \<open>"10000"\<close> with five digits,
  with the third octet \<open>-5\<close> it is \<open>"-500"\<close> with a minus sign, and for no pair of input
  strings does the function raise an error.
\<close>

theorem out_of_range_octets_accepted:
  "subnetIdHex (js ''10.0.256.0/24'') = Inr (js ''10000'') \<and>
   subnetIdHex (js ''10.0.-5.0/24'') = Inr (js ''-500'') \<and>
   deriveUlaFromIpv4 (js ''10.0.256.0/24'') (js ''fd52:425:78eb::/48'') =
     Inr \<lparr>ipv6subnet = js ''fd52:425:78eb:10000::/64'',
           ipv6gateway = js ''fd52:425:78eb:10000::1''\<rparr> \<and>
   deriveUlaFromIpv4 (js ''10.0.-5.0/24'') (js ''fd52:425:78eb::/48'') =
     Inr \<lparr>ipv6subnet = js ''fd52:425:78eb:-500::/64'',
           ipv6gateway = js ''fd52:425:78eb:-500::1''\<rparr> \<and>
   (\<forall>ipv4 ula_prefix. \<exists>r. deriveUlaFromIpv4 ipv4 ula_prefix = Inr r)"
proof -
  have "subnetIdHex (js ''10.0.256.0/24'') = Inr (js ''10000'')"
    and "subnetIdHex (js ''10.0.-5.0/24'') = Inr (js ''-500'')"
    by (simp_all add: eval_simps)
  then show ?thesis
    using example_octet_256 example_negative_octet deriveUlaFromIpv4_total by blast
qed

section \<open>Splitting at a single code unit\<close>

text \<open>
  For the separators \<open>/\<close>, \<open>.\<close> and \<open>:\<close> the first piece is the text before the first
  separator, the number of pieces is one more than the number of separators, and text
  joined with the separator splits back into its pieces.
\<close>

lemma split_loop_single_absent:
  "c \<notin> set s \<Longrightarrow> split_loop [c] cur s = [cur @ s]"
  by (induction s arbitrary: cur) auto

lemma split_loop_single_present:
  "c \<notin> set p \<Longrightarrow> split_loop [c] cur (p @ c # rest) = (cur @ p) # split_loop [c] [] rest"
  by (induction p arbitrary: cur) auto

lemma hd_split_loop_single:
  "hd (split_loop [c] cur s) = cur @ takeWhile (\<lambda>x. x \<noteq> c) s"
  by (induction s arbitrary: cur) auto

lemma length_split_loop_single:
  "length (split_loop [c] cur s) = Suc (length (filter (\<lambda>x. x = c) s))"
  by (induction s arbitrary: cur) auto

lemma split_loop_single_join:
  "hs \<noteq> [] \<Longrightarrow> \<forall>h\<in>set hs. c \<notin> set h \<Longrightarrow>
   split_loop [c] cur (join_str [c] hs) = (cur @ hd hs) # tl hs"
proof (induction "[c]" hs arbitrary: cur rule: join_str.induct)
  case 1
  then show ?case by simp
next
  case (2 x)
  then show ?case by (simp add: split_loop_single_absent)
next
  case (3 x y ys)
  then show ?case
    using split_loop_single_present [of c x cur "join_str [c] (y # ys)"]
    by simp
qed

lemma js_single: "js [c] = [ch c]"
  by (simp add: js_def)

lemma hd_split_str_single: "hd (split_str (js [c]) s) = takeWhile (\<lambda>x. x \<noteq> ch c) s"
  by (simp add: split_str_def js_single hd_split_loop_single)

lemma length_split_str_single:
  "length (split_str (js [c]) s) = Suc (length (filter (\<lambda>x. x = ch c) s))"
  by (simp add: split_str_def js_single length_split_loop_single)

lemma subnetIdOfOctets_undefined: "subnetIdOfOctets None None = js ''0000''"
  by (simp add: eval_simps)

lemma subnetIdHex_few_components:
  assumes "length (filter (\<lambda>c. c = ch CHR ''.'') (takeWhile (\<lambda>c. c \<noteq> ch CHR ''/'') ipv4)) < 2"
  shows "subnetIdHex ipv4 = Inr (js ''0000'')"
proof -
  let ?parts = "split_str (js ''.'') (hd (split_str (js ''/'') ipv4))"
  have "length ?parts < 3"
    using assms by (simp add: length_split_str_single hd_split_str_single)
  then have "elemAt (map Number ?parts) 2 = None" "elemAt (map Number ?parts) 3 = None"
    by (simp_all add: elemAt_def)
  then show ?thesis
    by (simp add: subnetIdHex_Inr Let_def subnetIdOfOctets_undefined)
qed

section \<open>Missing octets\<close>

text \<open>
  Claim C10. The function returns for every pair of strings. When the address part of
  \<open>ipv4\<close> (the text before the first \<open>/\<close>) has fewer than two dots, it has fewer than
  three dot-separated components, \<open>octets[2]\<close> and \<open>octets[3]\<close> are both \<open>undefined\<close>,
  the shift and the bitwise or coerce them to 0, and the subnet identifier is \<open>"0000"\<close>.
\<close>

theorem absent_octets_are_zero:
  assumes "length (filter (\<lambda>c. c = ch CHR ''.'') (takeWhile (\<lambda>c. c \<noteq> ch CHR ''/'') ipv4)) < 2"
  shows "length (split_str (js ''.'') (hd (split_str (js ''/'') ipv4))) < 3 \<and>
         subnetIdHex ipv4 = Inr (js ''0000'') \<and>
         (\<exists>base. deriveUlaFromIpv4 ipv4 ula_prefix =
            Inr \<lparr>ipv6subnet = base @ js '':0000::/64'', ipv6gateway = base @ js '':0000::1''\<rparr>) \<and>
         (\<forall>a b. \<exists>r. deriveUlaFromIpv4 a b = Inr r)"
proof -
  have s: "subnetIdHex ipv4 = Inr (js ''0000'')"
    using assms by (rule subnetIdHex_few_components)
  obtain base subnetId where
    "subnetIdHex ipv4 = Inr subnetId"
    "deriveUlaFromIpv4 ipv4 ula_prefix =
       Inr \<lparr>ipv6subnet = base @ js '':'' @ subnetId @ js ''::/64'',
             ipv6gateway = base @ js '':'' @ subnetId @ js ''::1''\<rparr>"
    using deriveUlaFromIpv4_shape [of ula_prefix ipv4] by blast
  with s have "deriveUlaFromIpv4 ipv4 ula_prefix =
       Inr \<lparr>ipv6subnet = base @ js '':0000::/64'', ipv6gateway = base @ js '':0000::1''\<rparr>"
    by (simp add: js_def)
  moreover have "length (split_str (js ''.'') (hd (split_str (js ''/'') ipv4))) < 3"
    using assms by (simp add: length_split_str_single hd_split_str_single)
  ultimately show ?thesis
    using s deriveUlaFromIpv4_total by blast
qed

theorem absent_octets_are_zero_witness:
  "length (filter (\<lambda>c. c = ch CHR ''.'')
     (takeWhile (\<lambda>c. c \<noteq> ch CHR ''/'') (js ''10.89/24''))) < 2 \<and>
   subnetIdHex (js ''10.89/24'') = Inr (js ''0000'') \<and>
   deriveUlaFromIpv4 (js ''10.89/24'') (js ''fd52:425::/48'') =
     Inr \<lparr>ipv6subnet = js ''fd52:425:0:0000::/64'', ipv6gateway = js ''fd52:425:0:0000::1''\<rparr>"
proof -
  have h: "length (filter (\<lambda>c. c = ch CHR ''.'')
     (takeWhile (\<lambda>c. c \<noteq> ch CHR ''/'') (js ''10.89/24''))) < 2"
    by (simp add: js_def ch_def)
  have d: "deriveUlaFromIpv4 (js ''10.89/24'') (js ''fd52:425::/48'') =
     Inr \<lparr>ipv6subnet = js ''fd52:425:0:0000::/64'', ipv6gateway = js ''fd52:425:0:0000::1''\<rparr>"
    by (simp add: eval_simps)
  from absent_octets_are_zero [OF h, of "js ''fd52:425::/48''"] h d show ?thesis by blast
qed

section \<open>The hextets in front of \<open>::\<close>\<close>

text \<open>
  When the prefix is a list of hextets joined with \<open>:\<close>, then \<open>::\<close>, then anything, the
  first \<open>::\<close> found by \<open>split\<close> is the one behind the last hextet, and the function
  recovers exactly that list.
\<close>

lemma js_colons: "js ''::'' = [ch CHR '':'', ch CHR '':'']" "js '':'' = [ch CHR '':'']"
  by (simp_all add: js_def)

lemma split_loop_colons_skip:
  "ch CHR '':'' \<notin> set h \<Longrightarrow>
   split_loop (js ''::'') cur (h @ s) = split_loop (js ''::'') (cur @ h) s"
  by (induction h arbitrary: cur) (auto simp: js_colons)

lemma split_loop_colons_one:
  "ch CHR '':'' \<notin> set h \<Longrightarrow> h \<noteq> [] \<Longrightarrow>
   split_loop (js ''::'') cur (ch CHR '':'' # h @ s) =
     split_loop (js ''::'') (cur @ ch CHR '':'' # h) s"
  using split_loop_colons_skip [of h "cur @ [ch CHR '':'']" s]
  by (cases h) (auto simp: js_colons)

lemma split_loop_colons_two:
  "split_loop (js ''::'') cur (js ''::'' @ s) = cur # split_loop (js ''::'') [] s"
  by (simp add: js_colons)

lemma hd_split_loop_colons_join:
  "\<forall>h\<in>set hs. h \<noteq> [] \<and> ch CHR '':'' \<notin> set h \<Longrightarrow>
   hd (split_loop (js ''::'') cur (join_str (js '':'') hs @ js ''::'' @ rest)) =
     cur @ join_str (js '':'') hs"
proof (induction "js '':''" hs arbitrary: cur rule: join_str.induct)
  case 1
  show ?case by (simp add: split_loop_colons_two)
next
  case (2 x)
  then show ?case by (simp add: split_loop_colons_skip split_loop_colons_two)
next
  case (3 x y ys)
  then have x: "ch CHR '':'' \<notin> set x" and y: "ch CHR '':'' \<notin> set y" "y \<noteq> []"
    and rest: "\<forall>h\<in>set (y # ys). h \<noteq> [] \<and> ch CHR '':'' \<notin> set h"
    by auto
  obtain c t where yc: "y = c # t" using y by (cases y) auto
  with y have c: "c \<noteq> ch CHR '':''" by auto
  have "split_loop (js ''::'') cur
          (join_str (js '':'') (x # y # ys) @ js ''::'' @ rest) =
        split_loop (js ''::'') (cur @ x)
          (ch CHR '':'' # join_str (js '':'') (y # ys) @ js ''::'' @ rest)"
    using split_loop_colons_skip [OF x] by (simp add: js_colons)
  also have "\<dots> = split_loop (js ''::'') ((cur @ x) @ [ch CHR '':''])
          (join_str (js '':'') (y # ys) @ js ''::'' @ rest)"
    using c by (cases ys) (simp_all add: yc js_colons)
  finally show ?case
    using "3.hyps" [OF rest, of "(cur @ x) @ [ch CHR '':'']"] by (simp add: js_colons)
qed


lemma set_join_str: "set (join_str sep hs) \<subseteq> set sep \<union> \<Union> (set ` set hs)"
  by (induction sep hs rule: join_str.induct) auto

lemma colon_not_slash: "ch CHR '':'' \<noteq> ch CHR ''/''"
  by (simp add: ch_def)

lemma ulaHextets_join:
  assumes "list_all hextetText hs"
  shows "ulaHextets (join_str (js '':'') hs @ js ''::'' @ rest) = Inr hs"
proof -
  let ?base = "join_str (js '':'') hs"
  from assms have hs: "\<forall>h\<in>set hs. h \<noteq> [] \<and> ch CHR '':'' \<notin> set h"
    and sl: "\<forall>h\<in>set hs. ch CHR ''/'' \<notin> set h"
    by (auto simp: list_all_iff hextetText_def)
  have "ch CHR ''/'' \<notin> set (?base @ js ''::'')"
    using set_join_str [of "js '':''" hs] sl colon_not_slash by (auto simp: js_colons)
  then have "takeWhile (\<lambda>x. x \<noteq> ch CHR ''/'') ((?base @ js ''::'') @ rest) =
      (?base @ js ''::'') @ takeWhile (\<lambda>x. x \<noteq> ch CHR ''/'') rest"
    by (intro takeWhile_append2) auto
  then have a: "hd (split_str (js ''/'') (?base @ js ''::'' @ rest)) =
      ?base @ js ''::'' @ takeWhile (\<lambda>x. x \<noteq> ch CHR ''/'') rest"
    by (simp add: hd_split_str_single)
  have b: "hd (split_str (js ''::'') (?base @ js ''::'' @ takeWhile (\<lambda>x. x \<noteq> ch CHR ''/'') rest))
      = ?base"
    using hd_split_loop_colons_join [OF hs, of "[]"] by (simp add: split_str_def js_colons)
  have c: "(let hextets = split_str (js '':'') ?base
            in if hextets = [[]] then [] else hextets) = hs"
  proof (cases hs)
    case Nil
    then show ?thesis by (simp add: split_str_def js_colons)
  next
    case (Cons h t)
    with hs have "h \<noteq> []" by simp
    moreover have "split_str (js '':'') ?base = hs"
      using split_loop_single_join [of hs "ch CHR '':''" "[]"] hs Cons
      by (simp add: split_str_def js_colons)
    ultimately show ?thesis using Cons by simp
  qed
  show ?thesis
    unfolding ulaHextets_Inr a b c ..
qed

lemma padHextets_two: "padHextets [h1, h2] = [h1, h2, js ''0'']"
  by (simp add: padHextets.simps)

lemma padHextets_long: "3 \<le> length hs \<Longrightarrow> padHextets hs = hs"
  by (simp add: padHextets.simps)

lemma ulaNetworkBase_two:
  assumes "hextetText h1" "hextetText h2"
  shows "ulaNetworkBase (h1 @ js '':'' @ h2 @ js ''::'' @ rest) = Inr (h1 @ js '':'' @ h2 @ js '':0'')"
  using ulaHextets_join [of "[h1, h2]" rest] assms
  by (simp add: ulaNetworkBase_def padHextets_two slice_def) (simp add: js_def)

lemma ulaNetworkBase_long:
  assumes "list_all hextetText hs" "3 \<le> length hs"
  shows "ulaNetworkBase (join_str (js '':'') hs @ js ''::'' @ rest) =
           Inr (join_str (js '':'') (take 3 hs))"
  using ulaHextets_join [OF assms(1), of rest] assms(2)
  by (simp add: ulaNetworkBase_def padHextets_long slice_def)


section \<open>Short and long prefixes\<close>

text \<open>
  Claim C7. When the ULA prefix is two hextets \<open>h1:h2\<close> followed by \<open>::\<close> and anything
  (such as \<open>"fd52:425::/48"\<close>), the hextet list is \<open>[h1, h2]\<close>, padding makes it
  \<open>[h1, h2, "0"]\<close>, and the network base in the output of every IPv4 input is
  \<open>h1:h2:0\<close>: its third hextet is the literal \<open>"0"\<close>.
\<close>

theorem two_hextet_prefix_padded:
  assumes "hextetText h1" and "hextetText h2"
  shows "ulaHextets (h1 @ js '':'' @ h2 @ js ''::'' @ rest) = Inr [h1, h2] \<and>
         slice 0 3 (padHextets [h1, h2]) = [h1, h2, js ''0''] \<and>
         ulaNetworkBase (h1 @ js '':'' @ h2 @ js ''::'' @ rest) =
           Inr (h1 @ js '':'' @ h2 @ js '':0'') \<and>
         (\<exists>subnetId. subnetIdHex ipv4 = Inr subnetId \<and>
            deriveUlaFromIpv4 ipv4 (h1 @ js '':'' @ h2 @ js ''::'' @ rest) =
              Inr \<lparr>ipv6subnet = h1 @ js '':'' @ h2 @ js '':0:'' @ subnetId @ js ''::/64'',
                    ipv6gateway = h1 @ js '':'' @ h2 @ js '':0:'' @ subnetId @ js ''::1''\<rparr>)"
proof -
  let ?ula = "h1 @ js '':'' @ h2 @ js ''::'' @ rest"
  have hx: "ulaHextets ?ula = Inr [h1, h2]"
    using ulaHextets_join [of "[h1, h2]" rest] assms by simp
  have sl: "slice 0 3 (padHextets [h1, h2]) = [h1, h2, js ''0'']"
    by (simp add: padHextets_two slice_def)
  have base: "ulaNetworkBase ?ula = Inr (h1 @ js '':'' @ h2 @ js '':0'')"
    using assms by (rule ulaNetworkBase_two)
  obtain subnetId where sid: "subnetIdHex ipv4 = Inr subnetId"
    using subnetIdHex_total by blast
  have "deriveUlaFromIpv4 ipv4 ?ula =
      Inr \<lparr>ipv6subnet = h1 @ js '':'' @ h2 @ js '':0:'' @ subnetId @ js ''::/64'',
            ipv6gateway = h1 @ js '':'' @ h2 @ js '':0:'' @ subnetId @ js ''::1''\<rparr>"
    by (simp add: deriveUlaFromIpv4_def base sid) (simp add: js_def)
  with hx sl base sid show ?thesis by blast
qed

theorem two_hextet_prefix_padded_witness:
  "hextetText (js ''fd52'') \<and> hextetText (js ''425'') \<and>
   ulaHextets (js ''fd52:425::/48'') = Inr [js ''fd52'', js ''425''] \<and>
   ulaNetworkBase (js ''fd52:425::/48'') = Inr (js ''fd52:425:0'') \<and>
   deriveUlaFromIpv4 (js ''10.89.5.0/24'') (js ''fd52:425::/48'') =
     Inr \<lparr>ipv6subnet = js ''fd52:425:0:0500::/64'', ipv6gateway = js ''fd52:425:0:0500::1''\<rparr>"
proof -
  have h1: "hextetText (js ''fd52'')" and h2: "hextetText (js ''425'')"
    by (simp_all add: hextetText_def js_def ch_def)
  have d: "deriveUlaFromIpv4 (js ''10.89.5.0/24'') (js ''fd52:425::/48'') =
     Inr \<lparr>ipv6subnet = js ''fd52:425:0:0500::/64'', ipv6gateway = js ''fd52:425:0:0500::1''\<rparr>"
    by (simp add: eval_simps)
  have e: "js ''fd52'' @ js '':'' @ js ''425'' @ js ''::'' @ js ''/48'' = js ''fd52:425::/48''"
    "js ''fd52'' @ js '':'' @ js ''425'' @ js '':0'' = js ''fd52:425:0''"
    by (simp_all add: js_def)
  from two_hextet_prefix_padded [OF h1 h2, of "js ''/48''" "js ''10.89.5.0/24''"] h1 h2 d
  show ?thesis unfolding e by blast
qed

text \<open>
  Claim C8. When four or more hextets stand in front of \<open>::\<close>, the output is built from
  the first three alone: a second prefix that agrees on the first three hextets, whatever
  its further hextets and whatever follows its \<open>::\<close>, gives the same object for every
  IPv4 input.
\<close>

theorem long_prefix_truncated:
  assumes "list_all hextetText hs" and "4 \<le> length hs"
    and "list_all hextetText hs'" and "4 \<le> length hs'"
    and "take 3 hs' = take 3 hs"
  shows "(\<exists>subnetId. subnetIdHex ipv4 = Inr subnetId \<and>
            deriveUlaFromIpv4 ipv4 (join_str (js '':'') hs @ js ''::'' @ rest) =
              Inr \<lparr>ipv6subnet =
                      join_str (js '':'') (take 3 hs) @ js '':'' @ subnetId @ js ''::/64'',
                    ipv6gateway =
                      join_str (js '':'') (take 3 hs) @ js '':'' @ subnetId @ js ''::1''\<rparr>) \<and>
         deriveUlaFromIpv4 ipv4 (join_str (js '':'') hs' @ js ''::'' @ rest') =
           deriveUlaFromIpv4 ipv4 (join_str (js '':'') hs @ js ''::'' @ rest)"
proof -
  have base: "ulaNetworkBase (join_str (js '':'') hs @ js ''::'' @ rest) =
      Inr (join_str (js '':'') (take 3 hs))"
    using assms(1,2) by (intro ulaNetworkBase_long) auto
  have base': "ulaNetworkBase (join_str (js '':'') hs' @ js ''::'' @ rest') =
      Inr (join_str (js '':'') (take 3 hs))"
    using ulaNetworkBase_long [of hs' rest'] assms(3,4,5) by auto
  obtain subnetId where sid: "subnetIdHex ipv4 = Inr subnetId"
    using subnetIdHex_total by blast
  have "deriveUlaFromIpv4 ipv4 (join_str (js '':'') hs @ js ''::'' @ rest) =
      Inr \<lparr>ipv6subnet = join_str (js '':'') (take 3 hs) @ js '':'' @ subnetId @ js ''::/64'',
            ipv6gateway = join_str (js '':'') (take 3 hs) @ js '':'' @ subnetId @ js ''::1''\<rparr>"
    by (simp add: deriveUlaFromIpv4_def base sid) (simp add: js_def)
  moreover have "deriveUlaFromIpv4 ipv4 (join_str (js '':'') hs' @ js ''::'' @ rest') =
      deriveUlaFromIpv4 ipv4 (join_str (js '':'') hs @ js ''::'' @ rest)"
    by (simp add: deriveUlaFromIpv4_def sid base base')
  ultimately show ?thesis using sid by blast
qed

theorem long_prefix_truncated_witness:
  "list_all hextetText [js ''fd52'', js ''425'', js ''78eb'', js ''9'', js ''abcd''] \<and>
   list_all hextetText [js ''fd52'', js ''425'', js ''78eb'', js ''ffff''] \<and>
   deriveUlaFromIpv4 (js ''192.168.20.0/24'') (js ''fd52:425:78eb:9:abcd::/64'') =
     Inr \<lparr>ipv6subnet = js ''fd52:425:78eb:1400::/64'',
           ipv6gateway = js ''fd52:425:78eb:1400::1''\<rparr> \<and>
   deriveUlaFromIpv4 (js ''192.168.20.0/24'') (js ''fd52:425:78eb:ffff::1/48'') =
     deriveUlaFromIpv4 (js ''192.168.20.0/24'') (js ''fd52:425:78eb:9:abcd::/64'')"
proof -
  let ?hs = "[js ''fd52'', js ''425'', js ''78eb'', js ''9'', js ''abcd'']"
  let ?hs' = "[js ''fd52'', js ''425'', js ''78eb'', js ''ffff'']"
  have a: "list_all hextetText ?hs" and b: "list_all hextetText ?hs'"
    by (simp_all add: hextetText_def js_def ch_def)
  have c: "4 \<le> length ?hs" and d: "4 \<le> length ?hs'" and e: "take 3 ?hs' = take 3 ?hs"
    by simp_all
  have f: "join_str (js '':'') ?hs @ js ''::'' @ js ''/64'' = js ''fd52:425:78eb:9:abcd::/64''"
    "join_str (js '':'') ?hs' @ js ''::'' @ js ''1/48'' = js ''fd52:425:78eb:ffff::1/48''"
    by (simp_all add: js_def)
  have g: "deriveUlaFromIpv4 (js ''192.168.20.0/24'') (js ''fd52:425:78eb:9:abcd::/64'') =
     Inr \<lparr>ipv6subnet = js ''fd52:425:78eb:1400::/64'',
           ipv6gateway = js ''fd52:425:78eb:1400::1''\<rparr>"
    by (simp add: eval_simps)
  from long_prefix_truncated [OF a c b d e, of "js ''192.168.20.0/24''" "js ''/64''" "js ''1/48''"]
  have "deriveUlaFromIpv4 (js ''192.168.20.0/24'') (js ''fd52:425:78eb:ffff::1/48'') =
     deriveUlaFromIpv4 (js ''192.168.20.0/24'') (js ''fd52:425:78eb:9:abcd::/64'')"
    unfolding f by blast
  with a b g show ?thesis by blast
qed


section \<open>\<open>Number\<close> on decimal octets\<close>

text \<open>
  A run of decimal digits is neither trimmed nor taken for a signed, non-decimal or
  \<open>Infinity\<close> literal; its Number is the one for its value, and ToInt32 of it is that
  value whenever it is below \<open>2 ^ 53\<close>, where every integer is a binary64 value.
\<close>

lemma unat_word_of_nat_16: "x < 65536 \<Longrightarrow> unat (word_of_nat x :: 16 word) = x"
  by (simp add: unat_of_nat)

lemma unat_ch: "unat (ch c) = of_char c"
proof -
  have "(of_char c :: nat) < 256"
    by (simp add: of_char_def)
  then have "(of_char c :: nat) < 65536"
    by linarith
  then show ?thesis
    unfolding ch_def by (rule unat_word_of_nat_16)
qed

lemma digit_range:
  assumes "isDigitIn 10 c"
  shows "48 \<le> unat c \<and> unat c \<le> 57"
  using assms
  by (auto simp: isDigitIn_def digitValue_def word_le_nat_alt split: if_splits)

lemma digit_neq_ch:
  assumes "isDigitIn 10 c" and "(of_char d :: nat) < 48 \<or> 57 < (of_char d :: nat)"
  shows "c \<noteq> ch d"
  using digit_range [OF assms(1)] assms(2) unat_ch [of d] by auto

lemma digit_not_white:
  assumes "isDigitIn 10 c"
  shows "\<not> isStrWhiteSpaceChar c"
  using digit_range [OF assms]
  by (auto simp: isStrWhiteSpaceChar_def word_le_nat_alt)

lemma dropWhile_self: "xs \<noteq> [] \<Longrightarrow> \<not> P (hd xs) \<Longrightarrow> dropWhile P xs = xs"
  by (cases xs) auto

lemma trimString_digits:
  assumes "s \<noteq> []" and "list_all (isDigitIn 10) s"
  shows "trimString s = s"
proof -
  from assms have "isDigitIn 10 (hd s)" and "isDigitIn 10 (last s)"
    by (auto simp: list_all_iff)
  then have h: "\<not> isStrWhiteSpaceChar (hd s)" and l: "\<not> isStrWhiteSpaceChar (hd (rev s))"
    by (simp_all add: digit_not_white hd_rev)
  have "dropWhile isStrWhiteSpaceChar s = s"
    using assms(1) h by (rule dropWhile_self)
  moreover have "dropWhile isStrWhiteSpaceChar (rev s) = rev s"
    using assms(1) l by (intro dropWhile_self) auto
  ultimately show ?thesis
    by (simp add: trimString_def)
qed

lemma nonDecimalLiteral_digits:
  assumes "list_all (isDigitIn 10) s"
  shows "nonDecimalLiteral s = None"
proof (cases s)
  case Nil
  then show ?thesis by (simp add: nonDecimalLiteral_def)
next
  case (Cons c0 t)
  show ?thesis
  proof (cases t)
    case Nil
    with Cons show ?thesis by (simp add: nonDecimalLiteral_def)
  next
    case (Cons c1 ds)
    with assms \<open>s = c0 # t\<close> have d: "isDigitIn 10 c1" by simp
    have "c1 \<noteq> ch CHR ''x''" "c1 \<noteq> ch CHR ''X''" "c1 \<noteq> ch CHR ''o''"
      "c1 \<noteq> ch CHR ''O''" "c1 \<noteq> ch CHR ''b''" "c1 \<noteq> ch CHR ''B''"
      by (rule digit_neq_ch [OF d], simp)+
    with Cons \<open>s = c0 # t\<close> show ?thesis by (simp add: nonDecimalLiteral_def)
  qed
qed

lemma strUnsignedDecimalLiteral_digits:
  assumes "s \<noteq> []" and "list_all (isDigitIn 10) s"
  shows "strUnsignedDecimalLiteral neg s = numberValue neg (digitsValue 10 s) 1"
proof -
  from assms have "isDigitIn 10 (hd s)"
    by (auto simp: list_all_iff)
  then have "hd s \<noteq> ch CHR ''I''"
    by (rule digit_neq_ch) simp
  then have ninf: "s \<noteq> js ''Infinity''"
    by (auto simp: js_def)
  have tw: "takeWhile (isDigitIn 10) s = s" and dw: "dropWhile (isDigitIn 10) s = []"
    using assms(2) by (simp_all add: list_all_iff)
  show ?thesis
    using assms(1) ninf
    by (simp add: strUnsignedDecimalLiteral_def tw dw exponentPart_def decimalValue_def)
qed

lemma Number_digits:
  assumes "s \<noteq> []" and "list_all (isDigitIn 10) s"
  shows "Number s = numberValue False (digitsValue 10 s) 1"
proof -
  from assms have d: "isDigitIn 10 (hd s)"
    by (auto simp: list_all_iff)
  have "hd s \<noteq> ch CHR ''+''" "hd s \<noteq> ch CHR ''-''"
    by (rule digit_neq_ch [OF d], simp)+
  then have "strDecimalLiteral s = strUnsignedDecimalLiteral False s"
    using assms(1) by (cases s) (simp_all add: strDecimalLiteral_def)
  then show ?thesis
    using assms
    by (simp add: Number_def trimString_digits nonDecimalLiteral_digits
        strUnsignedDecimalLiteral_digits)
qed

lemma roundHalfEven_1: "roundHalfEven x 1 = x" "roundHalfEven x (Suc 0) = x"
  by (simp_all add: roundHalfEven_def)

lemma numberValue_unfold:
  assumes "n \<noteq> 0"
    and "k = int (floorlog 2 n) - int (floorlog 2 d)"
    and "e0 = (if (if 0 \<le> k then d * 2 ^ nat k \<le> n else d \<le> n * 2 ^ nat (- k)) then k else k - 1)"
    and "s = max e0 (- 1022) - 52"
    and "m = (if 0 \<le> s then roundHalfEven n (d * 2 ^ nat s)
              else roundHalfEven (n * 2 ^ nat (- s)) d)"
  shows "numberValue neg n d =
     (if 0 \<le> s \<and> 2 ^ 1024 \<le> m * 2 ^ nat s then Infinity neg else Finite neg m s)"
  unfolding numberValue_def Let_def assms(2-5) using assms(1) by (simp only: if_False)

lemma numberValue_small:
  assumes pos: "0 < n" and small: "n < 2 ^ 53"
  shows "numberValue neg n 1 =
           Finite neg (n * 2 ^ (53 - floorlog 2 n)) (int (floorlog 2 n) - 53)"
proof -
  define f where "f = floorlog 2 n"
  have fl1: "floorlog 2 (Suc 0) = Suc 0"
    by (simp add: compute_floorlog)
  have "f \<noteq> 0"
    using pos by (simp add: f_def floorlog_eq_zero_iff)
  then have f1: "1 \<le> f"
    by simp
  have lo: "2 ^ (f - 1) \<le> n"
    using floorlog_bounds [of n 2] pos by (simp add: f_def)
  have f53: "f \<le> 53"
    unfolding f_def by (rule floorlog_leI [OF small]) simp_all
  define k where "k = int f - 1"
  have k: "k = int (floorlog 2 n) - int (floorlog 2 (1::nat))"
    by (simp add: k_def f_def fl1)
  have natk: "nat k = f - 1" and k0: "0 \<le> k"
    using f1 by (simp_all add: k_def)
  have e0: "k = (if (if 0 \<le> k then 1 * 2 ^ nat k \<le> n else 1 \<le> n * 2 ^ nat (- k))
                 then k else k - 1)"
    using lo k0 by (simp add: natk)
  define s where "s = int f - 53"
  have s: "s = max k (- 1022) - 52"
    using k0 by (simp add: s_def k_def)
  define m where "m = n * 2 ^ (53 - f)"
  have m: "m = (if 0 \<le> s then roundHalfEven n (1 * 2 ^ nat s)
                else roundHalfEven (n * 2 ^ nat (- s)) 1)"
  proof (cases "0 \<le> s")
    case True
    with f53 have "f = 53" by (simp add: s_def)
    then show ?thesis by (simp add: m_def s_def roundHalfEven_1)
  next
    case False
    then have "nat (- s) = 53 - f" by (simp add: s_def)
    with False show ?thesis by (simp add: m_def roundHalfEven_1)
  qed
  have fin: "\<not> (0 \<le> s \<and> 2 ^ 1024 \<le> m * 2 ^ nat s)"
  proof
    assume a: "0 \<le> s \<and> 2 ^ 1024 \<le> m * 2 ^ nat s"
    with f53 have "f = 53" by (simp add: s_def)
    then have "m * 2 ^ nat s = n" by (simp add: m_def s_def)
    moreover have "(2::nat) ^ 53 \<le> 2 ^ 1024"
      by (rule power_increasing) simp_all
    ultimately show False using a small by linarith
  qed
  have "numberValue neg n 1 =
     (if 0 \<le> s \<and> 2 ^ 1024 \<le> m * 2 ^ nat s then Infinity neg else Finite neg m s)"
    using pos by (intro numberValue_unfold [OF _ k e0 s m]) simp
  with fin show ?thesis
    by (simp only: if_False m_def s_def f_def)
qed

lemma ToInt32_numberValue_nat:
  assumes "n < 2 ^ 53"
  shows "ToInt32 (numberValue False n 1) = word_of_nat n"
proof (cases "n = 0")
  case True
  then show ?thesis by (simp add: numberValue_def ToInt32_def)
next
  case False
  then have "numberValue False n 1 =
      Finite False (n * 2 ^ (53 - floorlog 2 n)) (int (floorlog 2 n) - 53)"
    using assms by (intro numberValue_small) simp_all
  moreover have "floorlog 2 n \<le> 53"
    by (rule floorlog_leI [OF assms]) simp_all
  ultimately show ?thesis
    by (cases "floorlog 2 n = 53") (simp_all add: ToInt32_def nat_diff_distrib')
qed

section \<open>The subnet identifier of two octets\<close>

text \<open>
  For octets \<open>a\<close> and \<open>b\<close> up to 255 the shift and the bitwise or give \<open>a * 256 + b\<close>,
  and after padding the identifier is the two hexadecimal digits of \<open>a\<close> followed by the
  two of \<open>b\<close>.
\<close>

lemma small_bit_False: "b < 2 ^ k \<Longrightarrow> k \<le> n \<Longrightarrow> \<not> bit (b::nat) n"
proof -
  assume "b < 2 ^ k" "k \<le> n"
  then have "b < 2 ^ n"
    by (meson less_le_trans one_le_numeral power_increasing)
  then show ?thesis by (simp add: bit_iff_odd)
qed

lemma push_bit_or_small:
  fixes a b :: nat
  assumes "b < 2 ^ k"
  shows "push_bit k a OR b = a * 2 ^ k + b"
proof -
  have "push_bit k a AND b = 0"
    by (rule bit_eqI) (use small_bit_False [OF assms] in \<open>auto simp: bit_simps\<close>)
  then have "push_bit k a + b = push_bit k a OR b"
    by (rule disjunctive_add_eq_or)
  then show ?thesis by (simp add: push_bit_eq_mult)
qed

lemma shl8_or_octets:
  assumes "b < 256"
  shows "push_bit 8 (word_of_nat a :: 32 word) OR word_of_nat b = word_of_nat (a * 256 + b)"
proof -
  have "push_bit 8 (word_of_nat a :: 32 word) OR word_of_nat b =
        word_of_nat (push_bit 8 a OR b)"
    by (simp add: of_nat_or_eq push_bit_of_nat)
  also have "push_bit 8 a OR b = a * 256 + b"
    using push_bit_or_small [of b 8 a] assms by simp
  finally show ?thesis .
qed

lemma sint_word_of_nat_small:
  "n < 2 ^ 31 \<Longrightarrow> sint (word_of_nat n :: 32 word) = int n"
  by (simp add: signed_of_nat signed_take_bit_int_eq_self)

lemma toString16_small:
  "n < 2 ^ 31 \<Longrightarrow> toString16 (word_of_nat n) = toRadix16 n"
  by (simp add: toString16_def sint_word_of_nat_small)

lemma toRadix16_digit: "n < 16 \<Longrightarrow> toRadix16 n = [hexDigit n]"
  by (simp add: toRadix16.simps)

lemma toRadix16_more: "16 \<le> n \<Longrightarrow> toRadix16 n = toRadix16 (n div 16) @ [hexDigit (n mod 16)]"
  by (subst toRadix16.simps) simp

lemma js_zero: "js ''0'' = [hexDigit 0]"
  by (simp add: js_def ch_def hexDigit_def)

lemma unat_hexDigit:
  assumes "d < 16"
  shows "unat (hexDigit d) = (if d < 10 then 48 + d else 87 + d)"
proof -
  have "unat (word_of_nat (48 + d) :: 16 word) = 48 + d"
    and "unat (word_of_nat (87 + d) :: 16 word) = 87 + d"
    using assms by (simp_all only: unat_word_of_nat_16)
  then show ?thesis
    by (simp add: hexDigit_def)
qed

lemma hexDigit_inj:
  assumes "d < 16" and "e < 16" and "hexDigit d = hexDigit e"
  shows "d = e"
proof -
  have "unat (hexDigit d) = unat (hexDigit e)"
    using assms(3) by simp
  then show ?thesis
    unfolding unat_hexDigit [OF assms(1)] unat_hexDigit [OF assms(2)]
    by (simp split: if_splits)
qed

lemma padStart_toRadix16:
  assumes "n < 65536"
  shows "padStart 4 (js ''0'') (toRadix16 n) =
     [hexDigit (n div 4096), hexDigit (n div 256 mod 16), hexDigit (n div 16 mod 16),
      hexDigit (n mod 16)]"
proof -
  consider "n < 16" | "16 \<le> n" "n < 256" | "256 \<le> n" "n < 4096" | "4096 \<le> n"
    by linarith
  then show ?thesis
  proof cases
    case 1
    then show ?thesis
      by (simp add: toRadix16_digit padStart_def js_zero replicate_literal)
  next
    case 2
    then have "n div 16 < 16" by simp
    with 2 show ?thesis
      by (simp add: toRadix16_more toRadix16_digit padStart_def js_zero replicate_literal)
  next
    case 3
    then have a: "n div 16 div 16 < 16" "16 \<le> n div 16" by simp_all
    have b: "n div 16 div 16 = n div 256"
      by (simp add: div_mult2_eq [symmetric])
    from 3 a show ?thesis
      by (simp add: toRadix16_more toRadix16_digit padStart_def js_zero replicate_literal b)
  next
    case 4
    with assms have a: "n div 16 div 16 div 16 < 16" "16 \<le> n div 16" "16 \<le> n div 16 div 16"
      by simp_all
    have b: "n div 16 div 16 = n div 256" "n div 256 div 16 = n div 4096"
      by (simp_all add: div_mult2_eq [symmetric])
    from 4 a show ?thesis
      by (simp add: toRadix16_more toRadix16_digit padStart_def b)
  qed
qed

lemma octet_pair_digits:
  fixes a b :: nat
  assumes "b \<le> 255"
  shows "(a * 256 + b) div 4096 = a div 16" and "(a * 256 + b) div 256 mod 16 = a mod 16"
    and "(a * 256 + b) div 16 mod 16 = b div 16" and "(a * 256 + b) mod 16 = b mod 16"
proof -
  have d: "(a * 256 + b) div 256 = a"
    using assms by simp
  have "(a * 256 + b) div 4096 = (a * 256 + b) div 256 div 16"
    by (simp only: div_mult2_eq [symmetric] numeral_times_numeral semiring_norm)
  then show "(a * 256 + b) div 4096 = a div 16"
    by (simp only: d)
  show "(a * 256 + b) div 256 mod 16 = a mod 16"
    by (simp only: d)
  have "a * 256 + b = (a * 16) * 16 + b"
    by simp
  then have e: "(a * 256 + b) div 16 = a * 16 + b div 16"
    by simp
  have "b div 16 < 16"
    using assms by simp
  then show "(a * 256 + b) div 16 mod 16 = b div 16"
    by (simp add: e)
  show "(a * 256 + b) mod 16 = b mod 16"
    using \<open>a * 256 + b = (a * 16) * 16 + b\<close> by (metis mod_mult_self3)
qed

lemma subnetIdOfOctets_octets:
  assumes "a \<le> 255" and "b \<le> 255"
  shows "subnetIdOfOctets (Some (octetNumber a)) (Some (octetNumber b)) =
     [hexDigit (a div 16), hexDigit (a mod 16), hexDigit (b div 16), hexDigit (b mod 16)]"
proof -
  have "a < 2 ^ 53" "b < 2 ^ 53"
    using assms by simp_all
  then have ia: "ToInt32 (octetNumber a) = word_of_nat a"
    and ib: "ToInt32 (octetNumber b) = word_of_nat b"
    unfolding octetNumber_def by (simp_all only: ToInt32_numberValue_nat)
  have "b < 256"
    using assms by simp
  then have w: "bitor (shl8 (Some (octetNumber a))) (Some (octetNumber b)) =
      word_of_nat (a * 256 + b)"
    unfolding bitor_def shl8_def ToNumber_def option.case ia ib by (rule shl8_or_octets)
  have "a * 256 + b < 65536"
    using assms by simp
  then have small: "a * 256 + b < 2 ^ 31" and fits: "a * 256 + b < 65536"
    by simp_all
  show ?thesis
    unfolding subnetIdOfOctets_def w toString16_small [OF small] padStart_toRadix16 [OF fits]
      octet_pair_digits [OF assms(2)] ..
qed

lemma octet_from_digits:
  fixes a a' :: nat
  assumes "a div 16 = a' div 16" and "a mod 16 = a' mod 16"
  shows "a = a'"
  using assms by (metis div_mult_mod_eq)

lemma subnetIdOfOctets_inj:
  assumes "a \<le> 255" "b \<le> 255" "a' \<le> 255" "b' \<le> 255"
    and "subnetIdOfOctets (Some (octetNumber a)) (Some (octetNumber b)) =
         subnetIdOfOctets (Some (octetNumber a')) (Some (octetNumber b'))"
  shows "a = a' \<and> b = b'"
proof -
  have lt: "a div 16 < 16" "a mod 16 < 16" "b div 16 < 16" "b mod 16 < 16"
    "a' div 16 < 16" "a' mod 16 < 16" "b' div 16 < 16" "b' mod 16 < 16"
    using assms(1-4) by simp_all
  have "[hexDigit (a div 16), hexDigit (a mod 16), hexDigit (b div 16), hexDigit (b mod 16)] =
      [hexDigit (a' div 16), hexDigit (a' mod 16), hexDigit (b' div 16), hexDigit (b' mod 16)]"
    using assms(5)
    by (simp only: subnetIdOfOctets_octets [OF assms(1,2)] subnetIdOfOctets_octets [OF assms(3,4)])
  then have h:
    "hexDigit (a div 16) = hexDigit (a' div 16)" "hexDigit (a mod 16) = hexDigit (a' mod 16)"
    "hexDigit (b div 16) = hexDigit (b' div 16)" "hexDigit (b mod 16) = hexDigit (b' mod 16)"
    by (simp_all only: list.inject)
  have "a = a'"
    by (rule octet_from_digits [OF hexDigit_inj [OF lt(1) lt(5) h(1)]
          hexDigit_inj [OF lt(2) lt(6) h(2)]])
  moreover have "b = b'"
    by (rule octet_from_digits [OF hexDigit_inj [OF lt(3) lt(7) h(3)]
          hexDigit_inj [OF lt(4) lt(8) h(4)]])
  ultimately show ?thesis ..
qed

lemma subnetIdOfOctets_bij:
  "bij_betw (\<lambda>(a, b). subnetIdOfOctets (Some (octetNumber a)) (Some (octetNumber b)))
     ({0..255} \<times> {0..255}) {s. length s = 4 \<and> set s \<subseteq> hexDigit ` {0..<16}}"
  unfolding bij_betw_def
proof
  show "inj_on (\<lambda>(a, b). subnetIdOfOctets (Some (octetNumber a)) (Some (octetNumber b)))
     ({0..255} \<times> {0..255})"
  proof (rule inj_onI)
    fix x y :: "nat \<times> nat"
    assume x: "x \<in> {0..255} \<times> {0..255}" and y: "y \<in> {0..255} \<times> {0..255}"
      and eq: "(case x of (a, b) \<Rightarrow> subnetIdOfOctets (Some (octetNumber a)) (Some (octetNumber b))) =
        (case y of (a, b) \<Rightarrow> subnetIdOfOctets (Some (octetNumber a)) (Some (octetNumber b)))"
    obtain a b where xa: "x = (a, b)" by (cases x)
    obtain a' b' where ya: "y = (a', b')" by (cases y)
    from x y have r: "a \<le> 255" "b \<le> 255" "a' \<le> 255" "b' \<le> 255"
      by (simp_all add: xa ya)
    from eq have "subnetIdOfOctets (Some (octetNumber a)) (Some (octetNumber b)) =
         subnetIdOfOctets (Some (octetNumber a')) (Some (octetNumber b'))"
      by (simp only: xa ya prod.case)
    then have "a = a' \<and> b = b'"
      by (rule subnetIdOfOctets_inj [OF r])
    then show "x = y"
      by (simp only: xa ya)
  qed
next
  show "(\<lambda>(a, b). subnetIdOfOctets (Some (octetNumber a)) (Some (octetNumber b))) `
      ({0..255} \<times> {0..255}) = {s. length s = 4 \<and> set s \<subseteq> hexDigit ` {0..<16}}"
  proof (intro equalityI subsetI)
    fix s
    assume "s \<in> (\<lambda>(a, b). subnetIdOfOctets (Some (octetNumber a)) (Some (octetNumber b))) `
      ({0..255} \<times> {0..255})"
    then obtain a b where ab: "a \<le> 255" "b \<le> 255"
      and s: "s = subnetIdOfOctets (Some (octetNumber a)) (Some (octetNumber b))"
      by auto
    have "a div 16 < 16" "a mod 16 < 16" "b div 16 < 16" "b mod 16 < 16"
      using ab by simp_all
    then show "s \<in> {s. length s = 4 \<and> set s \<subseteq> hexDigit ` {0..<16}}"
      unfolding s subnetIdOfOctets_octets [OF ab] by simp
  next
    fix s :: jsstring
    assume "s \<in> {s. length s = 4 \<and> set s \<subseteq> hexDigit ` {0..<16}}"
    then have len: "length s = 4" and sub: "set s \<subseteq> hexDigit ` {0..<16}"
      by simp_all
    from len obtain c3 c2 c1 c0 where s: "s = [c3, c2, c1, c0]"
      by (auto simp: numeral_eq_Suc length_Suc_conv)
    from sub have "c3 \<in> hexDigit ` {0..<16}" "c2 \<in> hexDigit ` {0..<16}"
      "c1 \<in> hexDigit ` {0..<16}" "c0 \<in> hexDigit ` {0..<16}"
      by (simp_all add: s)
    then obtain d3 d2 d1 d0 where
      d: "c3 = hexDigit d3" "c2 = hexDigit d2" "c1 = hexDigit d1" "c0 = hexDigit d0"
      and lt: "d3 < 16" "d2 < 16" "d1 < 16" "d0 < 16"
      by (elim imageE) simp
    let ?a = "d3 * 16 + d2" and ?b = "d1 * 16 + d0"
    have ab: "?a \<le> 255" "?b \<le> 255"
      using lt by simp_all
    have e: "?a div 16 = d3" "?a mod 16 = d2" "?b div 16 = d1" "?b mod 16 = d0"
      using lt by simp_all
    have "subnetIdOfOctets (Some (octetNumber ?a)) (Some (octetNumber ?b)) = s"
      unfolding subnetIdOfOctets_octets [OF ab] e s d ..
    moreover have "(?a, ?b) \<in> {0..255} \<times> {0..255}"
      using ab by simp
    ultimately show "s \<in> (\<lambda>(a, b). subnetIdOfOctets (Some (octetNumber a)) (Some (octetNumber b))) `
      ({0..255} \<times> {0..255})"
      by (metis (mono_tags, lifting) image_eqI prod.case)
  qed
qed

section \<open>Valid IPv4 inputs\<close>

lemma ipv4Text_join:
  "ipv4Text o1 o2 o3 o4 sfx = join_str [ch CHR ''.''] [o1, o2, o3, o4] @ sfx"
  by (simp add: ipv4Text_def js_def)

lemma octets_of_ipv4Text:
  assumes "octetText o1" "octetText o2" "octetText o3" "octetText o4" "cidrSuffix sfx"
  shows "split_str (js ''.'') (hd (split_str (js ''/'') (ipv4Text o1 o2 o3 o4 sfx))) =
     [o1, o2, o3, o4]"
proof -
  let ?addr = "join_str [ch CHR ''.''] [o1, o2, o3, o4]"
  have dot_slash: "ch CHR ''.'' \<noteq> ch CHR ''/''"
    by (simp add: ch_def)
  have "ch CHR ''/'' \<notin> set ?addr"
    using assms(1-4) dot_slash by (auto simp: octetText_def)
  then have a: "takeWhile (\<lambda>x. x \<noteq> ch CHR ''/'') (?addr @ sfx) =
      ?addr @ takeWhile (\<lambda>x. x \<noteq> ch CHR ''/'') sfx"
    by (intro takeWhile_append2) auto
  have b: "takeWhile (\<lambda>x. x \<noteq> ch CHR ''/'') sfx = []"
    using assms(5) by (cases sfx) (auto simp: cidrSuffix_def)
  have c: "split_loop [ch CHR ''.''] [] ?addr = [o1, o2, o3, o4]"
    using split_loop_single_join [of "[o1, o2, o3, o4]" "ch CHR ''.''" "[]"] assms(1-4)
    by (simp add: octetText_def)
  have "hd (split_str (js ''/'') (ipv4Text o1 o2 o3 o4 sfx)) = ?addr"
    unfolding ipv4Text_join hd_split_str_single a b by (rule append_Nil2)
  then have "split_str (js ''.'') (hd (split_str (js ''/'') (ipv4Text o1 o2 o3 o4 sfx))) =
      split_loop [ch CHR ''.''] [] ?addr"
    by (simp add: split_str_def js_single del: join_str.simps)
  then show ?thesis
    by (simp only: c)
qed

lemma subnetIdHex_ipv4Text:
  assumes "octetText o1" "octetText o2" "octetText o3" "octetText o4" "cidrSuffix sfx"
  shows "subnetIdHex (ipv4Text o1 o2 o3 o4 sfx) =
     Inr (subnetIdOfOctets (Some (Number o3)) (Some (Number o4)))"
  by (simp add: subnetIdHex_Inr octets_of_ipv4Text [OF assms] elemAt_def)

lemma decimalOctet_octetText:
  assumes "decimalOctet s n"
  shows "octetText s"
proof -
  have "c \<noteq> ch CHR ''.'' \<and> c \<noteq> ch CHR ''/''" if "c \<in> set s" for c
  proof -
    from assms that have d: "isDigitIn 10 c"
      by (auto simp: decimalOctet_def list_all_iff)
    show ?thesis
      by (intro conjI; rule digit_neq_ch [OF d]; simp)
  qed
  then show ?thesis
    by (auto simp: octetText_def)
qed

lemma Number_decimalOctet:
  assumes "decimalOctet s n"
  shows "Number s = octetNumber n"
  using assms Number_digits [of s] by (simp add: decimalOctet_def octetNumber_def)

lemma subnetIdHex_valid:
  assumes "octetText o1" "octetText o2" "decimalOctet o3 a" "decimalOctet o4 b" "cidrSuffix sfx"
  shows "subnetIdHex (ipv4Text o1 o2 o3 o4 sfx) =
     Inr (subnetIdOfOctets (Some (octetNumber a)) (Some (octetNumber b)))"
  using subnetIdHex_ipv4Text [OF assms(1,2) decimalOctet_octetText [OF assms(3)]
      decimalOctet_octetText [OF assms(4)] assms(5)]
  by (simp only: Number_decimalOctet [OF assms(3)] Number_decimalOctet [OF assms(4)])

section \<open>The identifier is the fourth hextet of the output\<close>

text \<open>
  Whatever the ULA prefix is, the network base consists of exactly three pieces without
  a colon, so the output is \<open>h1:h2:h3:id::/64\<close> (and \<open>h1:h2:h3:id::1\<close>) and an identifier
  without a colon is its fourth colon-separated group.
\<close>

lemma split_loop_single_pieces:
  "c \<notin> set cur \<Longrightarrow> p \<in> set (split_loop [c] cur s) \<Longrightarrow> c \<notin> set p"
proof (induction s arbitrary: cur)
  case Nil
  then show ?case by simp
next
  case (Cons a s)
  show ?case
  proof (cases "a = c")
    case True
    with Cons.prems have "p = cur \<or> p \<in> set (split_loop [c] [] s)"
      by simp
    then show ?thesis
      using Cons.prems(1) Cons.IH [of "[]"] by auto
  next
    case False
    with Cons.prems have "p \<in> set (split_loop [c] (cur @ [a]) s)"
      by simp
    moreover have "c \<notin> set (cur @ [a])"
      using Cons.prems(1) False by simp
    ultimately show ?thesis
      by (rule Cons.IH [rotated])
  qed
qed

lemma split_str_colon_pieces:
  "\<forall>p\<in>set (split_str (js '':'') s). ch CHR '':'' \<notin> set p"
  using split_loop_single_pieces [of "ch CHR '':''" "[]" _ s]
  by (simp add: split_str_def js_colons)

lemma ulaHextets_colon_free:
  assumes "ulaHextets ula_prefix = Inr hs"
  shows "\<forall>h\<in>set hs. ch CHR '':'' \<notin> set h"
  using assms split_str_colon_pieces
  by (auto simp: ulaHextets_Inr Let_def split: if_splits)

lemma zero_colon_free: "ch CHR '':'' \<notin> set (js ''0'')"
  by (simp add: js_def ch_def)

lemma padHextets_eq: "padHextets hs = hs @ replicate (3 - length hs) (js ''0'')"
proof (induction hs rule: padHextets.induct)
  case (1 hextets)
  show ?case
  proof (cases "length hextets < 3")
    case True
    then have "3 - length hextets = Suc (3 - length (hextets @ [js ''0'']))"
      by simp
    with True 1 show ?thesis
      by (subst padHextets.simps) (simp add: replicate_app_Cons_same)
  next
    case False
    then show ?thesis
      by (subst padHextets.simps) simp
  qed
qed

lemma network_base_three:
  assumes "ulaHextets ula_prefix = Inr hs"
  shows "\<exists>h1 h2 h3. slice 0 3 (padHextets hs) = [h1, h2, h3] \<and>
     ch CHR '':'' \<notin> set h1 \<and> ch CHR '':'' \<notin> set h2 \<and> ch CHR '':'' \<notin> set h3"
proof -
  let ?xs = "slice 0 3 (padHextets hs)"
  have len: "length ?xs = 3"
    by (simp add: slice_def padHextets_eq)
  have "set ?xs \<subseteq> set hs \<union> {js ''0''}"
    using set_take_subset [of 3 "padHextets hs"] by (auto simp: slice_def padHextets_eq)
  then have free: "\<forall>h\<in>set ?xs. ch CHR '':'' \<notin> set h"
    using ulaHextets_colon_free [OF assms] zero_colon_free by blast
  from len obtain h1 h2 h3 where xs: "?xs = [h1, h2, h3]"
    by (auto simp: numeral_eq_Suc length_Suc_conv)
  with free show ?thesis by simp
qed

lemma output_hextets:
  assumes "ch CHR '':'' \<notin> set subnetId" and "subnetIdHex ipv4 = Inr subnetId"
  shows "\<exists>r. deriveUlaFromIpv4 ipv4 ula_prefix = Inr r \<and>
     fourthHextet (ipv6subnet r) = Some subnetId \<and>
     fourthHextet (ipv6gateway r) = Some subnetId"
proof -
  obtain hs where hs: "ulaHextets ula_prefix = Inr hs"
    using ulaHextets_Inr by blast
  obtain h1 h2 h3 where b: "slice 0 3 (padHextets hs) = [h1, h2, h3]"
    and f: "ch CHR '':'' \<notin> set h1" "ch CHR '':'' \<notin> set h2" "ch CHR '':'' \<notin> set h3"
    using network_base_three [OF hs] by blast
  let ?sub = "[h1, h2, h3, subnetId, [], js ''/64'']"
  let ?gw = "[h1, h2, h3, subnetId, [], js ''1'']"
  have tails: "ch CHR '':'' \<notin> set (js ''/64'')" "ch CHR '':'' \<notin> set (js ''1'')"
    by (simp_all add: js_def ch_def)
  have d: "deriveUlaFromIpv4 ipv4 ula_prefix =
      Inr \<lparr>ipv6subnet = join_str [ch CHR '':''] ?sub,
            ipv6gateway = join_str [ch CHR '':''] ?gw\<rparr>"
    by (simp add: deriveUlaFromIpv4_def assms(2) ulaNetworkBase_def hs b) (simp add: js_def)
  have "split_loop [ch CHR '':''] [] (join_str [ch CHR '':''] ?sub) = ?sub"
    using split_loop_single_join [of ?sub "ch CHR '':''" "[]"] f assms(1) tails by simp
  then have s: "fourthHextet (join_str [ch CHR '':''] ?sub) = Some subnetId"
    by (simp add: fourthHextet_def split_str_def js_colons elemAt_def del: join_str.simps)
  have "split_loop [ch CHR '':''] [] (join_str [ch CHR '':''] ?gw) = ?gw"
    using split_loop_single_join [of ?gw "ch CHR '':''" "[]"] f assms(1) tails by simp
  then have g: "fourthHextet (join_str [ch CHR '':''] ?gw) = Some subnetId"
    by (simp add: fourthHextet_def split_str_def js_colons elemAt_def del: join_str.simps)
  from d s g show ?thesis by simp
qed

lemma hexDigit_not_colon: "d < 16 \<Longrightarrow> hexDigit d \<noteq> ch CHR '':''"
proof
  assume d: "d < 16" and e: "hexDigit d = ch CHR '':''"
  have "unat (hexDigit d) = unat (ch CHR '':'')"
    using e by simp
  then show False
    unfolding unat_hexDigit [OF d] unat_ch by (simp split: if_splits)
qed

lemma subnetIdOfOctets_colon_free:
  assumes "a \<le> 255" and "b \<le> 255"
  shows "ch CHR '':'' \<notin> set (subnetIdOfOctets (Some (octetNumber a)) (Some (octetNumber b)))"
proof -
  have "a div 16 < 16" "a mod 16 < 16" "b div 16 < 16" "b mod 16 < 16"
    using assms by simp_all
  then show ?thesis
    unfolding subnetIdOfOctets_octets [OF assms]
    using hexDigit_not_colon by (metis empty_iff empty_set set_ConsD)
qed

lemma digitValue_decimal: "d < 10 \<Longrightarrow> digitValue (hexDigit d) = Some d"
proof -
  assume d: "d < 10"
  then have "d < 16" by simp
  then have u: "unat (hexDigit d) = 48 + d"
    using d by (simp add: unat_hexDigit)
  then show ?thesis
    using d by (simp add: digitValue_def word_le_nat_alt)
qed

lemma isDigitIn_decimal: "d < 10 \<Longrightarrow> isDigitIn 10 (hexDigit d)"
  by (simp add: isDigitIn_def digitValue_decimal)

lemma digitsValue_snoc:
  "digitsValue radix (ds @ [c]) =
     digitsValue radix ds * radix + (case digitValue c of None \<Rightarrow> 0 | Some d \<Rightarrow> d)"
  by (simp add: digitsValue_def)

lemma digitsValue_single:
  "digitsValue radix [c] = (case digitValue c of None \<Rightarrow> 0 | Some d \<Rightarrow> d)"
  by (simp add: digitsValue_def)

lemma decimalText_props:
  "decimalText n \<noteq> [] \<and> list_all (isDigitIn 10) (decimalText n) \<and>
   digitsValue 10 (decimalText n) = n"
proof (induction n rule: decimalText.induct)
  case (1 n)
  show ?case
  proof (cases "n < 10")
    case True
    then show ?thesis
      by (subst (1 2 3) decimalText.simps)
         (simp add: isDigitIn_decimal digitsValue_single digitValue_decimal)
  next
    case False
    have m: "n mod 10 < 10" by simp
    from False 1 show ?thesis
      by (subst (1 2 3) decimalText.simps)
         (simp add: isDigitIn_decimal [OF m] digitsValue_snoc digitValue_decimal [OF m])
  qed
qed

lemma decimalOctet_decimalText: "n \<le> 255 \<Longrightarrow> decimalOctet (decimalText n) n"
  using decimalText_props [of n] by (simp add: decimalOctet_def)

lemma fourthHextet_valid:
  assumes "octetText o1" and "octetText o2" and "decimalOctet o3 a" and "decimalOctet o4 b"
    and "cidrSuffix sfx"
  shows "\<exists>r. deriveUlaFromIpv4 (ipv4Text o1 o2 o3 o4 sfx) ula_prefix = Inr r \<and>
     fourthHextet (ipv6subnet r) =
       Some (subnetIdOfOctets (Some (octetNumber a)) (Some (octetNumber b))) \<and>
     fourthHextet (ipv6gateway r) =
       Some (subnetIdOfOctets (Some (octetNumber a)) (Some (octetNumber b)))"
proof -
  have r: "a \<le> 255" "b \<le> 255"
    using assms(3,4) by (simp_all add: decimalOctet_def)
  show ?thesis
    using subnetIdOfOctets_colon_free [OF r] subnetIdHex_valid [OF assms]
    by (rule output_hextets)
qed

lemma fourthHextet_bij:
  assumes "octetText o1" and "octetText o2" and "cidrSuffix sfx"
  shows "bij_betw
     (\<lambda>(a, b). fourthHextet (ipv6subnet (projr (deriveUlaFromIpv4
        (ipv4Text o1 o2 (decimalText a) (decimalText b) sfx) ula_prefix))))
     ({0..255} \<times> {0..255})
     (Some ` {s. length s = 4 \<and> set s \<subseteq> hexDigit ` {0..<16}})"
proof -
  let ?f = "\<lambda>(a, b). subnetIdOfOctets (Some (octetNumber a)) (Some (octetNumber b))"
  let ?g = "\<lambda>(a, b). fourthHextet (ipv6subnet (projr (deriveUlaFromIpv4
        (ipv4Text o1 o2 (decimalText a) (decimalText b) sfx) ula_prefix)))"
  let ?S = "{s. length s = 4 \<and> set s \<subseteq> hexDigit ` {0..<16}}"
  have "bij_betw Some ?S (Some ` ?S)"
    by (rule inj_on_imp_bij_betw) simp
  with subnetIdOfOctets_bij have c: "bij_betw (Some \<circ> ?f) ({0..255} \<times> {0..255}) (Some ` ?S)"
    by (rule bij_betw_trans)
  have "?g x = (Some \<circ> ?f) x" if "x \<in> {0..255} \<times> {0..255}" for x
  proof -
    obtain a b where x: "x = (a, b)" by (cases x)
    with that have r: "a \<le> 255" "b \<le> 255" by simp_all
    obtain r where "deriveUlaFromIpv4
        (ipv4Text o1 o2 (decimalText a) (decimalText b) sfx) ula_prefix = Inr r"
      and "fourthHextet (ipv6subnet r) =
        Some (subnetIdOfOctets (Some (octetNumber a)) (Some (octetNumber b)))"
      using fourthHextet_valid [OF assms(1,2) decimalOctet_decimalText [OF r(1)]
          decimalOctet_decimalText [OF r(2)] assms(3), of ula_prefix] by blast
    then show ?thesis
      by (simp add: x)
  qed
  then have "bij_betw ?g ({0..255} \<times> {0..255}) (Some ` ?S) =
      bij_betw (Some \<circ> ?f) ({0..255} \<times> {0..255}) (Some ` ?S)"
    by (rule bij_betw_cong)
  with c show ?thesis by simp
qed

section \<open>One subnet identifier per pair of octets\<close>

text \<open>
  Claim C5. Take two IPv4 inputs with four dot-separated components each, whose third
  and fourth components are decimal octets (values \<open>a\<close>, \<open>b\<close> and \<open>a'\<close>, \<open>b'\<close>, at most
  255), with any first and second components and any CIDR suffix or none, and any ULA
  prefix. The subnet identifier of the first input is the text computed from \<open>a\<close> and
  \<open>b\<close> alone, and it is the fourth hextet of the returned subnet and of the returned
  gateway. The fourth hextets of the two outputs (and the two identifiers, and the two
  outputs) are equal exactly when \<open>(a, b) = (a', b')\<close>. For a fixed ULA prefix the map
  from the 65536 pairs of octets to the fourth hextet of the output is a bijection onto
  the texts of four lowercase hexadecimal digits.
\<close>

theorem subnet_id_bijective:
  assumes "octetText o1" and "octetText o2" and "decimalOctet o3 a" and "decimalOctet o4 b"
    and "cidrSuffix sfx"
    and "octetText o1'" and "octetText o2'" and "decimalOctet o3' a'" and "decimalOctet o4' b'"
    and "cidrSuffix sfx'"
  shows "subnetIdHex (ipv4Text o1 o2 o3 o4 sfx) =
           Inr (subnetIdOfOctets (Some (octetNumber a)) (Some (octetNumber b))) \<and>
         (\<exists>r r'. deriveUlaFromIpv4 (ipv4Text o1 o2 o3 o4 sfx) ula_prefix = Inr r \<and>
            deriveUlaFromIpv4 (ipv4Text o1' o2' o3' o4' sfx') ula_prefix = Inr r' \<and>
            fourthHextet (ipv6subnet r) =
              Some (subnetIdOfOctets (Some (octetNumber a)) (Some (octetNumber b))) \<and>
            fourthHextet (ipv6gateway r) =
              Some (subnetIdOfOctets (Some (octetNumber a)) (Some (octetNumber b))) \<and>
            (fourthHextet (ipv6subnet r) = fourthHextet (ipv6subnet r')) = (a = a' \<and> b = b') \<and>
            (fourthHextet (ipv6gateway r) = fourthHextet (ipv6gateway r')) = (a = a' \<and> b = b')) \<and>
         (\<exists>base. deriveUlaFromIpv4 (ipv4Text o1 o2 o3 o4 sfx) ula_prefix =
            Inr \<lparr>ipv6subnet = base @ js '':'' @
                    subnetIdOfOctets (Some (octetNumber a)) (Some (octetNumber b)) @ js ''::/64'',
                  ipv6gateway = base @ js '':'' @
                    subnetIdOfOctets (Some (octetNumber a)) (Some (octetNumber b)) @ js ''::1''\<rparr>) \<and>
         ((subnetIdHex (ipv4Text o1 o2 o3 o4 sfx) = subnetIdHex (ipv4Text o1' o2' o3' o4' sfx')) =
            (a = a' \<and> b = b')) \<and>
         ((deriveUlaFromIpv4 (ipv4Text o1 o2 o3 o4 sfx) ula_prefix =
           deriveUlaFromIpv4 (ipv4Text o1' o2' o3' o4' sfx') ula_prefix) = (a = a' \<and> b = b')) \<and>
         bij_betw (\<lambda>(a, b). subnetIdOfOctets (Some (octetNumber a)) (Some (octetNumber b)))
           ({0..255} \<times> {0..255}) {s. length s = 4 \<and> set s \<subseteq> hexDigit ` {0..<16}} \<and>
         bij_betw
           (\<lambda>(a, b). fourthHextet (ipv6subnet (projr (deriveUlaFromIpv4
              (ipv4Text o1 o2 (decimalText a) (decimalText b) sfx) ula_prefix))))
           ({0..255} \<times> {0..255})
           (Some ` {s. length s = 4 \<and> set s \<subseteq> hexDigit ` {0..<16}}) \<and>
         card ({0..255::nat} \<times> {0..255::nat}) = 65536"
proof -
  let ?id = "subnetIdOfOctets (Some (octetNumber a)) (Some (octetNumber b))"
  let ?id' = "subnetIdOfOctets (Some (octetNumber a')) (Some (octetNumber b'))"
  have r: "a \<le> 255" "b \<le> 255" "a' \<le> 255" "b' \<le> 255"
    using assms(3,4,8,9) by (simp_all add: decimalOctet_def)
  have s: "subnetIdHex (ipv4Text o1 o2 o3 o4 sfx) = Inr ?id"
    using assms(1-5) by (rule subnetIdHex_valid)
  have s': "subnetIdHex (ipv4Text o1' o2' o3' o4' sfx') = Inr ?id'"
    using assms(6-10) by (rule subnetIdHex_valid)
  have inj: "(?id = ?id') = (a = a' \<and> b = b')"
    using subnetIdOfOctets_inj [OF r] by blast
  obtain x where x: "deriveUlaFromIpv4 (ipv4Text o1 o2 o3 o4 sfx) ula_prefix = Inr x"
    "fourthHextet (ipv6subnet x) = Some ?id" "fourthHextet (ipv6gateway x) = Some ?id"
    using fourthHextet_valid [OF assms(1-5), of ula_prefix] by blast
  obtain x' where x': "deriveUlaFromIpv4 (ipv4Text o1' o2' o3' o4' sfx') ula_prefix = Inr x'"
    "fourthHextet (ipv6subnet x') = Some ?id'" "fourthHextet (ipv6gateway x') = Some ?id'"
    using fourthHextet_valid [OF assms(6-10), of ula_prefix] by blast
  have h: "\<exists>r r'. deriveUlaFromIpv4 (ipv4Text o1 o2 o3 o4 sfx) ula_prefix = Inr r \<and>
      deriveUlaFromIpv4 (ipv4Text o1' o2' o3' o4' sfx') ula_prefix = Inr r' \<and>
      fourthHextet (ipv6subnet r) = Some ?id \<and> fourthHextet (ipv6gateway r) = Some ?id \<and>
      (fourthHextet (ipv6subnet r) = fourthHextet (ipv6subnet r')) = (a = a' \<and> b = b') \<and>
      (fourthHextet (ipv6gateway r) = fourthHextet (ipv6gateway r')) = (a = a' \<and> b = b')"
    using x x' inj by (intro exI [of _ x] exI [of _ x']) simp
  obtain base where base: "ulaNetworkBase ula_prefix = Inr base"
    using ulaNetworkBase_total by blast
  have d: "deriveUlaFromIpv4 (ipv4Text o1 o2 o3 o4 sfx) ula_prefix =
      Inr \<lparr>ipv6subnet = base @ js '':'' @ ?id @ js ''::/64'',
            ipv6gateway = base @ js '':'' @ ?id @ js ''::1''\<rparr>"
    by (simp add: deriveUlaFromIpv4_def s base) (simp add: js_def)
  have d': "deriveUlaFromIpv4 (ipv4Text o1' o2' o3' o4' sfx') ula_prefix =
      Inr \<lparr>ipv6subnet = base @ js '':'' @ ?id' @ js ''::/64'',
            ipv6gateway = base @ js '':'' @ ?id' @ js ''::1''\<rparr>"
    by (simp add: deriveUlaFromIpv4_def s' base) (simp add: js_def)
  have i1: "(subnetIdHex (ipv4Text o1 o2 o3 o4 sfx) = subnetIdHex (ipv4Text o1' o2' o3' o4' sfx')) =
      (a = a' \<and> b = b')"
    unfolding s s' using inj by simp
  have i2: "(deriveUlaFromIpv4 (ipv4Text o1 o2 o3 o4 sfx) ula_prefix =
      deriveUlaFromIpv4 (ipv4Text o1' o2' o3' o4' sfx') ula_prefix) = (a = a' \<and> b = b')"
    unfolding d d' using inj by simp
  have c: "card ({0..255::nat} \<times> {0..255::nat}) = 65536"
    by (simp add: card_cartesian_product)
  note b2 = fourthHextet_bij [OF assms(1,2,5), of ula_prefix]
  from s h d show ?thesis
    using i1 i2 subnetIdOfOctets_bij b2 c by blast
qed

theorem subnet_id_bijective_witness:
  "octetText (js ''192'') \<and> octetText (js ''168'') \<and> decimalOctet (js ''20'') 20 \<and>
   decimalOctet (js ''0'') 0 \<and> cidrSuffix (js ''/24'') \<and>
   octetText (js ''10'') \<and> octetText (js ''89'') \<and> decimalOctet (js ''5'') 5 \<and>
   decimalOctet (js ''000'') 0 \<and> cidrSuffix (js '''') \<and>
   subnetIdHex (js ''192.168.20.0/24'') = Inr (js ''1400'') \<and>
   fourthHextet (ipv6subnet (projr (deriveUlaFromIpv4 (js ''192.168.20.0/24'')
     (js ''fd52:425:78eb:9:abcd::/64'')))) = Some (js ''1400'') \<and>
   subnetIdHex (js ''192.168.20.0/24'') \<noteq> subnetIdHex (js ''10.89.5.000'') \<and>
   deriveUlaFromIpv4 (js ''192.168.20.0/24'') (js ''fd52:425:78eb:9:abcd::/64'') \<noteq>
     deriveUlaFromIpv4 (js ''10.89.5.000'') (js ''fd52:425:78eb:9:abcd::/64'')"
proof -
  have h: "octetText (js ''192'')" "octetText (js ''168'')" "decimalOctet (js ''20'') 20"
    "decimalOctet (js ''0'') 0" "cidrSuffix (js ''/24'')"
    "octetText (js ''10'')" "octetText (js ''89'')" "decimalOctet (js ''5'') 5"
    "decimalOctet (js ''000'') 0" "cidrSuffix (js '''')"
    by (simp_all add: octetText_def decimalOctet_def cidrSuffix_def js_def ch_def isDigitIn_def
        digitValue_def digitsValue_def)
  have t: "ipv4Text (js ''192'') (js ''168'') (js ''20'') (js ''0'') (js ''/24'') =
      js ''192.168.20.0/24''"
    "ipv4Text (js ''10'') (js ''89'') (js ''5'') (js ''000'') (js '''') = js ''10.89.5.000''"
    by (simp_all add: ipv4Text_def js_def)
  have e: "subnetIdHex (js ''192.168.20.0/24'') = Inr (js ''1400'')"
    by (simp add: eval_simps)
  note w = subnet_id_bijective [OF h, of "js ''fd52:425:78eb:9:abcd::/64''", unfolded t]
  from w have i: "Inr (subnetIdOfOctets (Some (octetNumber 20)) (Some (octetNumber 0))) =
      subnetIdHex (js ''192.168.20.0/24'')"
    by simp
  from w obtain r where "deriveUlaFromIpv4 (js ''192.168.20.0/24'')
      (js ''fd52:425:78eb:9:abcd::/64'') = Inr r"
    and "fourthHextet (ipv6subnet r) =
      Some (subnetIdOfOctets (Some (octetNumber 20)) (Some (octetNumber 0)))"
    by blast
  with i e have f: "fourthHextet (ipv6subnet (projr (deriveUlaFromIpv4 (js ''192.168.20.0/24'')
     (js ''fd52:425:78eb:9:abcd::/64'')))) = Some (js ''1400'')"
    by simp
  from w have "(subnetIdHex (js ''192.168.20.0/24'') = subnetIdHex (js ''10.89.5.000'')) =
      ((20::nat) = 5 \<and> (0::nat) = 0)"
    by blast
  then have n1: "subnetIdHex (js ''192.168.20.0/24'') \<noteq> subnetIdHex (js ''10.89.5.000'')"
    by simp
  from w have "(deriveUlaFromIpv4 (js ''192.168.20.0/24'') (js ''fd52:425:78eb:9:abcd::/64'') =
     deriveUlaFromIpv4 (js ''10.89.5.000'') (js ''fd52:425:78eb:9:abcd::/64'')) =
      ((20::nat) = 5 \<and> (0::nat) = 0)"
    by blast
  then have n2: "deriveUlaFromIpv4 (js ''192.168.20.0/24'') (js ''fd52:425:78eb:9:abcd::/64'') \<noteq>
     deriveUlaFromIpv4 (js ''10.89.5.000'') (js ''fd52:425:78eb:9:abcd::/64'')"
    by simp
  from n1 n2 h e f show ?thesis by blast
qed

end
